theory Spec2Isabelle
  imports Complex_Main
begin

section \<open>Portfolio interactions: hero canvas and deploy script\<close>

text \<open>
  The development embeds two parts of the repository: the hero canvas of
  \<^verbatim>\<open>src/js/main.js\<close> (the helper \<^verbatim>\<open>throttle\<close> and the function
  \<^verbatim>\<open>initCanvas\<close> with its closure variables and event handlers) and the
  script \<^verbatim>\<open>scripts/deploy.sh\<close>.

  JavaScript numbers are modelled as real numbers: every arithmetic operation
  is exact, and the rounding of IEEE doubles, infinities and NaN are outside
  the model. Integral host values (\<^verbatim>\<open>Date.now()\<close>, \<^verbatim>\<open>window.innerWidth\<close>,
  \<^verbatim>\<open>offsetWidth\<close>, \<^verbatim>\<open>offsetHeight\<close>, animation frame handles) are integers
  or naturals.
\<close>

subsection \<open>Helpers\<close>

text \<open>
  \<^verbatim>\<open>throttle(fn, limit)\<close> returns a closure over the variable \<^verbatim>\<open>last\<close>
  (initially 0). A call of the closure reads the clock; when at least
  \<^verbatim>\<open>limit\<close> ms have passed since \<^verbatim>\<open>last\<close> it stores the time and calls
  \<^verbatim>\<open>fn\<close> at once, otherwise it does nothing. The model passes the closure
  variable and the state \<^verbatim>\<open>fn\<close> works on explicitly; \<open>now\<close> is the value
  of \<^verbatim>\<open>Date.now()\<close> at the call.
\<close>

definition throttle :: "('s \<Rightarrow> 's) \<Rightarrow> int \<Rightarrow> int \<Rightarrow> int \<times> 's \<Rightarrow> int \<times> 's" where
  "throttle fn limit now = (\<lambda>(lst, s).
     if now - lst \<ge> limit then (now, fn s) else (lst, s))"

subsection \<open>Colours\<close>

record rgb =
  rgb_r :: int
  rgb_g :: int
  rgb_b :: int

definition ACCENT :: rgb where
  "ACCENT = \<lparr>rgb_r = 124, rgb_g = 109, rgb_b = 250\<rparr>"

definition CYAN :: rgb where
  "CYAN = \<lparr>rgb_r = 34, rgb_g = 211, rgb_b = 238\<rparr>"

definition CONNECT_DIST :: real where
  "CONNECT_DIST = 160"

definition lerp :: "real \<Rightarrow> real \<Rightarrow> real \<Rightarrow> real" where
  "lerp a b t = a + (b - a) * t"

text \<open>
  \<^verbatim>\<open>Math.round\<close> rounds to the nearest integer, a tie going up:
  the floor of \<open>x + 1/2\<close>.
\<close>

definition Math_round :: "real \<Rightarrow> int" where
  "Math_round x = \<lfloor>x + 1 / 2\<rfloor>"

definition interpolateColor :: "real \<Rightarrow> rgb" where
  "interpolateColor t =
     \<lparr>rgb_r = Math_round (lerp (of_int (rgb_r ACCENT)) (of_int (rgb_r CYAN)) t),
      rgb_g = Math_round (lerp (of_int (rgb_g ACCENT)) (of_int (rgb_g CYAN)) t),
      rgb_b = Math_round (lerp (of_int (rgb_b ACCENT)) (of_int (rgb_b CYAN)) t)\<rparr>"

subsection \<open>Particles\<close>

text \<open>
  The fields \<^verbatim>\<open>x, y, vx, vy, r, t\<close> of a \<^verbatim>\<open>Particle\<close>; the selectors carry
  the prefix \<open>p\<close> so that they do not capture the variables of the
  statements below.
\<close>

record particle =
  px :: real
  py :: real
  pvx :: real
  pvy :: real
  pr :: real
  pt :: real

text \<open>
  \<^verbatim>\<open>Math.random()\<close> is a source of draws \<open>rnd :: nat \<Rightarrow> real\<close> read at a
  position that every call advances by one. \<^verbatim>\<open>reset\<close> assigns all six fields
  of \<^verbatim>\<open>this\<close>, in the order of the source, so the model returns the particle
  it leaves behind together with the new position. Both branches of the
  conditional on \<^verbatim>\<open>initial\<close> are kept as written.
\<close>

definition reset :: "real \<Rightarrow> real \<Rightarrow> bool \<Rightarrow> (nat \<Rightarrow> real) \<Rightarrow> nat \<Rightarrow> particle \<times> nat" where
  "reset width height initial rnd k =
     (\<lparr>px = rnd k * width,
       py = (if initial then rnd (k + 1) * height else rnd (k + 1) * height),
       pvx = (rnd (k + 2) - 0.5) * 0.45,
       pvy = (rnd (k + 3) - 0.5) * 0.45,
       pr = rnd (k + 4) * 1.8 + 0.8,
       pt = rnd (k + 5)\<rparr>, k + 6)"

text \<open>The constructor: \<^verbatim>\<open>constructor() { this.reset(true); }\<close>.\<close>

definition new_Particle :: "real \<Rightarrow> real \<Rightarrow> (nat \<Rightarrow> real) \<Rightarrow> nat \<Rightarrow> particle \<times> nat" where
  "new_Particle width height rnd k = reset width height True rnd k"

text \<open>
  \<^verbatim>\<open>move\<close>: four consecutive \<^verbatim>\<open>if\<close> statements, each reading the
  coordinate the previous one may have written.
\<close>

definition move :: "real \<Rightarrow> real \<Rightarrow> particle \<Rightarrow> particle" where
  "move width height p =
     (let x1 = px p + pvx p;
          y1 = py p + pvy p;
          x2 = (if x1 < - 10 then width + 10 else x1);
          x3 = (if x2 > width + 10 then - 10 else x2);
          y2 = (if y1 < - 10 then height + 10 else y1);
          y3 = (if y2 > height + 10 then - 10 else y2)
      in p\<lparr>px := x3, py := y3\<rparr>)"

subsection \<open>Drawing\<close>

text \<open>
  The calls on the 2D context that reach the canvas: \<^verbatim>\<open>clearRect\<close>, a filled
  full circle (\<^verbatim>\<open>arc\<close> from 0 to \<open>2\<pi>\<close>, then \<^verbatim>\<open>fill\<close>) with its colour and
  alpha, and a stroked segment (\<^verbatim>\<open>moveTo\<close>, \<^verbatim>\<open>lineTo\<close>, \<^verbatim>\<open>stroke\<close>) with its
  colour, alpha and line width.
\<close>

datatype draw_cmd =
    ClearRect real real real real
  | FillCircle real real real rgb real
  | StrokeLine real real real real rgb real real

definition draw :: "particle \<Rightarrow> draw_cmd" where
  "draw p = FillCircle (px p) (py p) (pr p) (interpolateColor (pt p)) 0.65"

definition line_alpha :: "real \<Rightarrow> real" where
  "line_alpha d = (1 - d / CONNECT_DIST) * 0.18"

text \<open>
  The body of the inner loop of \<^verbatim>\<open>drawLines\<close> for the particles at i and j
  (\<open>d\<close> stands for \<^verbatim>\<open>dist\<close>).
\<close>

definition connect :: "particle \<Rightarrow> particle \<Rightarrow> draw_cmd list" where
  "connect p q =
     (let dx = px p - px q;
          dy = py p - py q;
          d = sqrt (dx * dx + dy * dy)
      in if d < CONNECT_DIST
         then (let alpha = line_alpha d;
                   tAvg = (pt p + pt q) / 2;
                   c = interpolateColor tAvg
               in [StrokeLine (px p) (py p) (px q) (py q) c alpha 0.8])
         else [])"

text \<open>
  \<^verbatim>\<open>for (i = 0; i < n; i++) for (j = i + 1; j < n; j++)\<close>: the outer and the
  inner loop in the order the source runs them.
\<close>

definition drawLines :: "particle list \<Rightarrow> draw_cmd list" where
  "drawLines ps =
     concat (map (\<lambda>i. concat (map (\<lambda>j. connect (ps ! i) (ps ! j)) [i + 1 ..< length ps]))
                 [0 ..< length ps])"

subsection \<open>The closure of \<^verbatim>\<open>initCanvas\<close> and its host\<close>

text \<open>
  The layout values the script reads from the host: \<^verbatim>\<open>window.innerWidth\<close>,
  \<^verbatim>\<open>canvas.offsetWidth\<close>, \<^verbatim>\<open>canvas.offsetHeight\<close> and
  \<^verbatim>\<open>window.devicePixelRatio\<close>.
\<close>

record viewport =
  innerWidth :: int
  offsetWidth :: int
  offsetHeight :: int
  devicePixelRatio :: real

text \<open>
  The state: the closure variables \<^verbatim>\<open>width\<close>, \<^verbatim>\<open>height\<close>, \<^verbatim>\<open>particles\<close>,
  \<^verbatim>\<open>animId\<close>, the constant \<^verbatim>\<open>PARTICLE_COUNT\<close> and the variable \<^verbatim>\<open>last\<close> of
  the throttled resize handler (\<open>throttle_last\<close>), followed by the part of the
  host the script acts on: the current layout (\<open>win\<close>), \<^verbatim>\<open>document.hidden\<close>,
  the list of pending animation frame callbacks (their handles; every callback
  the script registers is \<^verbatim>\<open>frame\<close>), the last handle issued, the random
  source and its position, the size assigned to the canvas, the scale given to
  \<^verbatim>\<open>setTransform\<close>, and the drawing calls made so far.
\<close>

record state =
  width :: real
  height :: real
  particles :: "particle list"
  animId :: nat
  PARTICLE_COUNT :: int
  throttle_last :: int
  win :: viewport
  hidden :: bool
  callbacks :: "nat list"
  handle :: nat
  rnd :: "nat \<Rightarrow> real"
  rnd_pos :: nat
  canvas_size :: "real \<times> real"
  transform :: real
  canvas_log :: "draw_cmd list"

text \<open>
  \<^verbatim>\<open>requestAnimationFrame\<close> issues the next handle and appends the callback
  to the pending list; \<^verbatim>\<open>cancelAnimationFrame\<close> removes the callback with the
  given handle, if it is pending.
\<close>

definition requestAnimationFrame :: "state \<Rightarrow> nat \<times> state" where
  "requestAnimationFrame s =
     (let h = handle s + 1 in (h, s\<lparr>callbacks := callbacks s @ [h], handle := h\<rparr>))"

definition cancelAnimationFrame :: "nat \<Rightarrow> state \<Rightarrow> state" where
  "cancelAnimationFrame h s = s\<lparr>callbacks := filter (\<lambda>c. c \<noteq> h) (callbacks s)\<rparr>"

text \<open>
  \<^verbatim>\<open>resize\<close>: \<^verbatim>\<open>devicePixelRatio || 1\<close> replaces a ratio of 0 by 1.
\<close>

definition resize :: "state \<Rightarrow> state" where
  "resize s =
     (let dpr = (if devicePixelRatio (win s) = 0 then 1 else devicePixelRatio (win s));
          w = real_of_int (offsetWidth (win s));
          h = real_of_int (offsetHeight (win s))
      in s\<lparr>width := w, height := h, canvas_size := (w * dpr, h * dpr), transform := dpr\<rparr>)"

text \<open>
  \<^verbatim>\<open>Array.from({ length: n }, () => new Particle())\<close> calls the constructor
  n times, in index order; a negative length yields the empty array.
\<close>

fun make_particles :: "nat \<Rightarrow> real \<Rightarrow> real \<Rightarrow> (nat \<Rightarrow> real) \<Rightarrow> nat \<Rightarrow> particle list \<times> nat" where
  "make_particles 0 w h rs k = ([], k)"
| "make_particles (Suc n) w h rs k =
     (let (p, k1) = new_Particle w h rs k;
          (ps, k2) = make_particles n w h rs k1
      in (p # ps, k2))"

definition buildParticles :: "state \<Rightarrow> state" where
  "buildParticles s =
     (let (ps, k) = make_particles (nat (PARTICLE_COUNT s)) (width s) (height s) (rnd s) (rnd_pos s)
      in s\<lparr>particles := ps, rnd_pos := k\<rparr>)"

text \<open>
  \<^verbatim>\<open>frame\<close>: clear, move and draw every particle, draw the lines, request
  the next frame. A particle's \<^verbatim>\<open>move\<close> and \<^verbatim>\<open>draw\<close> touch no other
  particle, so the interleaved \<^verbatim>\<open>forEach\<close> is the map of \<open>move\<close> followed by
  the circles in index order.
\<close>

definition frame :: "state \<Rightarrow> state" where
  "frame s =
     (let ps = map (move (width s) (height s)) (particles s);
          cmds = ClearRect 0 0 (width s) (height s) # map draw ps @ drawLines ps;
          (h, s1) = requestAnimationFrame (s\<lparr>particles := ps, canvas_log := canvas_log s @ cmds\<rparr>)
      in s1\<lparr>animId := h\<rparr>)"

text \<open>The \<^verbatim>\<open>visibilitychange\<close> listener.\<close>

definition on_visibilitychange :: "state \<Rightarrow> state" where
  "on_visibilitychange s =
     (if hidden s then cancelAnimationFrame (animId s) s
      else (let (h, s1) = requestAnimationFrame s in s1\<lparr>animId := h\<rparr>))"

text \<open>
  The \<^verbatim>\<open>resize\<close> listener: \<^verbatim>\<open>throttle(() => { resize(); buildParticles(); }, 200)\<close>,
  called when the clock reads \<open>now\<close>.
\<close>

definition on_resize :: "int \<Rightarrow> state \<Rightarrow> state" where
  "on_resize now s =
     (let (l, s1) = throttle (\<lambda>s0. buildParticles (resize s0)) 200 now (throttle_last s, s)
      in s1\<lparr>throttle_last := l\<rparr>)"

text \<open>
  What the host does to the script: a resize of the window at clock reading
  \<open>now\<close> leaving the layout \<open>v\<close>, a change of \<^verbatim>\<open>document.hidden\<close> to the given
  value, and an animation frame, which takes the pending callbacks off the
  list and runs them in order (callbacks registered meanwhile wait for the next
  frame). The host is free to deliver any event at any time; in particular the
  model does not assume that a hidden page receives no animation frame.
\<close>

datatype event = Resize int viewport | VisibilityChange bool | AnimationFrame

fun step :: "event \<Rightarrow> state \<Rightarrow> state" where
  "step (Resize now v) s = on_resize now (s\<lparr>win := v\<rparr>)"
| "step (VisibilityChange b) s = on_visibilitychange (s\<lparr>hidden := b\<rparr>)"
| "step AnimationFrame s = fold (\<lambda>c. frame) (callbacks s) (s\<lparr>callbacks := []\<rparr>)"

definition run :: "event list \<Rightarrow> state \<Rightarrow> state" where
  "run evs s = fold step evs s"

text \<open>
  The body of \<^verbatim>\<open>initCanvas\<close> once the canvas is found: the declarations, then
  \<^verbatim>\<open>resize(); buildParticles(); frame();\<close>. The closure variables are
  declared without a value; each is assigned by these three calls before it is
  read, and \<^verbatim>\<open>resize\<close> sets the canvas size and the transform, so the
  placeholders below are never observed. The first handle issued is 1.
\<close>

definition start :: "viewport \<Rightarrow> bool \<Rightarrow> (nat \<Rightarrow> real) \<Rightarrow> state" where
  "start v hid rs =
     frame (buildParticles (resize
       \<lparr>width = 0, height = 0, particles = [], animId = 0,
        PARTICLE_COUNT = min 70 \<lfloor>real_of_int (innerWidth v) / 16\<rfloor>,
        throttle_last = 0,
        win = v, hidden = hid, callbacks = [], handle = 0,
        rnd = rs, rnd_pos = 0, canvas_size = (300, 150), transform = 1,
        canvas_log = []\<rparr>))"

text \<open>
  \<^verbatim>\<open>if (!canvas) return;\<close>: without the element nothing is set up.
\<close>

definition initCanvas :: "bool \<Rightarrow> viewport \<Rightarrow> bool \<Rightarrow> (nat \<Rightarrow> real) \<Rightarrow> state option" where
  "initCanvas has_canvas v hid rs = (if \<not> has_canvas then None else Some (start v hid rs))"

subsection \<open>The deploy script\<close>

text \<open>
  \<^verbatim>\<open>scripts/deploy.sh\<close> runs under \<^verbatim>\<open>set -euo pipefail\<close>: a command that
  fails outside a condition ends the script with that command's status. What
  the script meets outside itself is gathered in one record: the directory
  above the script, the assignments of the file \<^verbatim>\<open>.env\<close> (\<open>None\<close> when there
  is no such file), the variables the shell inherited, the arguments, the
  entries of \<^verbatim>\<open>dist\<close> before the script runs and after \<^verbatim>\<open>build.sh\<close>
  (\<open>None\<close> when \<^verbatim>\<open>dist\<close> is not a directory), and the exit statuses of
  \<^verbatim>\<open>build.sh\<close> and of the three calls of the \<^verbatim>\<open>aws\<close> tool, the last with the
  text it prints.
\<close>

record deploy_world =
  root_dir :: string
  env_file :: "(string \<times> string) list option"
  environ :: "(string \<times> string) list"
  args :: "string list"
  dist_before :: "string list option"
  build_status :: nat
  dist_after_build :: "string list option"
  sync_html_status :: nat
  sync_assets_status :: nat
  invalidation_status :: nat
  invalidation_output :: string

text \<open>
  What a run leaves behind: the exit status, the lines written (standard output
  and standard error in the order written), and the external commands run.
  The messages are those of the source without their non-ASCII ornaments.
\<close>

datatype action =
    Build
  | SyncHtml string string string
  | SyncAssets string string string
  | Invalidate string

record outcome =
  exit_status :: nat
  printed :: "string list"
  actions :: "action list"

text \<open>
  \<^verbatim>\<open>source "$ENV_FILE"\<close> performs the assignments of the file in order over
  the inherited variables, a later assignment overriding an earlier one.
\<close>

definition source_env :: "(string \<times> string) list \<Rightarrow> (string \<times> string) list \<Rightarrow> string \<Rightarrow> string option" where
  "source_env inherited assignments = map_of (rev assignments @ inherited)"

text \<open>
  \<^verbatim>\<open>${VAR:?word}\<close> fails when the variable is unset or null; the shell then
  writes the variable's name and the word to standard error (after the script's
  name and line) and exits with status 1.
\<close>

definition unset_or_null :: "string option \<Rightarrow> bool" where
  "unset_or_null v = (case v of None \<Rightarrow> True | Some x \<Rightarrow> x = [])"

text \<open>
  \<^verbatim>\<open>$VAR\<close> in a string: the value of the variable. The script expands the
  three variables only after the checks above, when each of them is set.
\<close>

definition expand :: "string option \<Rightarrow> string" where
  "expand v = (case v of None \<Rightarrow> [] | Some x \<Rightarrow> x)"

text \<open>
  \<^verbatim>\<open>$(ls -A "$DIST")\<close>: one entry per line, trailing newlines removed by the
  command substitution.
\<close>

definition ls_A :: "string list \<Rightarrow> string" where
  "ls_A names = concat (map (\<lambda>n. n @ [CHR 0x0A]) names)"

definition command_subst :: "string \<Rightarrow> string" where
  "command_subst out = rev (dropWhile (\<lambda>c. c = CHR 0x0A) (rev out))"

definition dist_unusable :: "string list option \<Rightarrow> bool" where
  "dist_unusable d = (case d of None \<Rightarrow> True | Some names \<Rightarrow> command_subst (ls_A names) = [])"

definition banner :: "string \<Rightarrow> string \<Rightarrow> string \<Rightarrow> string list" where
  "banner bucket region cf =
     [''============================================================'',
      ''  Portfolio Deployment'',
      ''  Bucket  : s3://'' @ bucket,
      ''  Region  : '' @ region,
      ''  CF Dist : '' @ cf,
      ''============================================================'']"

definition env_missing_msg :: "string \<Rightarrow> string list" where
  "env_missing_msg dir =
     [''.env file not found at '' @ dir @ ''/.env'',
      ''  Copy .env.example to .env and fill in your values.'']"

definition dist_empty_msg :: string where
  "dist_empty_msg = ''dist/ is empty. Run build.sh first or drop --skip-build.''"

definition unset_msg :: "string \<Rightarrow> string" where
  "unset_msg name = name @ '': '' @ name @ '' is not set in .env''"

definition done_msg :: "string \<Rightarrow> string \<Rightarrow> string list" where
  "done_msg cf ident =
     [''Invalidation created: '' @ ident,
      ''  (CloudFront propagation takes ~30-60 seconds globally)'',
      [],
      ''============================================================'',
      ''  Deployment complete!'',
      [],
      ''  CloudFront URL (check aws/setup.sh output or AWS console):'',
      ''  https://<your-distribution>.cloudfront.net'',
      [],
      ''  To watch the invalidation status:'',
      ''  aws cloudfront get-invalidation '' @ [CHR 0x5C],
      ''    --distribution-id '' @ cf @ '' '' @ [CHR 0x5C],
      ''    --id '' @ ident,
      ''============================================================'']"

definition deploy :: "deploy_world \<Rightarrow> outcome" where
  "deploy w =
     (case env_file w of
        None \<Rightarrow> \<lparr>exit_status = 1, printed = env_missing_msg (root_dir w), actions = []\<rparr>
      | Some assignments \<Rightarrow>
          (let var = source_env (environ w) assignments in
           if unset_or_null (var ''S3_BUCKET'') then
             \<lparr>exit_status = 1, printed = [unset_msg ''S3_BUCKET''], actions = []\<rparr>
           else if unset_or_null (var ''AWS_REGION'') then
             \<lparr>exit_status = 1, printed = [unset_msg ''AWS_REGION''], actions = []\<rparr>
           else if unset_or_null (var ''CLOUDFRONT_DISTRIBUTION_ID'') then
             \<lparr>exit_status = 1, printed = [unset_msg ''CLOUDFRONT_DISTRIBUTION_ID''], actions = []\<rparr>
           else
             (let bucket = expand (var ''S3_BUCKET'');
                  region = expand (var ''AWS_REGION'');
                  cf = expand (var ''CLOUDFRONT_DISTRIBUTION_ID'');
                  SKIP_BUILD = (''--skip-build'' \<in> set (args w));
                  out1 = banner bucket region cf @
                    (if SKIP_BUILD then [''Step 1/3 - Skipping build (--skip-build)'']
                     else [[], ''Step 1/3 - Building...'']);
                  acts1 = (if SKIP_BUILD then [] else [Build]);
                  DIST = (if SKIP_BUILD then dist_before w else dist_after_build w)
              in
              if \<not> SKIP_BUILD \<and> build_status w \<noteq> 0 then
                \<lparr>exit_status = build_status w, printed = out1, actions = acts1\<rparr>
              else if dist_unusable DIST then
                \<lparr>exit_status = 1, printed = out1 @ [dist_empty_msg], actions = acts1\<rparr>
              else
                (let out2 = out1 @ [[], ''Step 2/3 - Syncing to S3...''];
                     dir = root_dir w @ ''/dist'';
                     acts2 = acts1 @ [SyncHtml dir bucket region]
                 in
                 if sync_html_status w \<noteq> 0 then
                   \<lparr>exit_status = sync_html_status w, printed = out2, actions = acts2\<rparr>
                 else if sync_assets_status w \<noteq> 0 then
                   \<lparr>exit_status = sync_assets_status w, printed = out2,
                    actions = acts2 @ [SyncAssets dir bucket region]\<rparr>
                 else
                   (let out3 = out2 @ [''S3 sync complete.'', [],
                                       ''Step 3/3 - Invalidating CloudFront cache...''];
                        acts3 = acts2 @ [SyncAssets dir bucket region, Invalidate cf]
                    in
                    if invalidation_status w \<noteq> 0 then
                      \<lparr>exit_status = invalidation_status w, printed = out3, actions = acts3\<rparr>
                    else
                      \<lparr>exit_status = 0,
                       printed = out3 @ done_msg cf (command_subst (invalidation_output w)),
                       actions = acts3\<rparr>)))))"

text \<open>An upload is one of the two \<^verbatim>\<open>aws s3 sync\<close> calls.\<close>

fun is_upload :: "action \<Rightarrow> bool" where
  "is_upload (SyncHtml d b r) = True"
| "is_upload (SyncAssets d b r) = True"
| "is_upload a = False"

subsection \<open>Notions used in the statements\<close>

text \<open>
  A layout in which the canvas spans a window of the given width, at a device
  pixel ratio of 1.
\<close>

definition layout :: "int \<Rightarrow> int \<Rightarrow> viewport" where
  "layout w h = \<lparr>innerWidth = w, offsetWidth = w, offsetHeight = h, devicePixelRatio = 1\<rparr>"

text \<open>The particle array has the length the constant asks for.\<close>

definition count_ok :: "state \<Rightarrow> bool" where
  "count_ok s = (length (particles s) = nat (PARTICLE_COUNT s))"

text \<open>The fields of a particle that \<^verbatim>\<open>move\<close> does not assign.\<close>

definition fixed_fields :: "particle \<Rightarrow> real \<times> real \<times> real \<times> real" where
  "fixed_fields p = (pvx p, pvy p, pr p, pt p)"

text \<open>
  An event rebuilds the particle set when it is a resize that the throttle
  lets through: the test \<^verbatim>\<open>now - last >= limit\<close> of \<^verbatim>\<open>throttle\<close> at the
  limit 200 of the resize listener.
\<close>

fun rebuilds :: "event \<Rightarrow> state \<Rightarrow> bool" where
  "rebuilds (Resize now v) s = (now - throttle_last s \<ge> 200)"
| "rebuilds e s = False"

text \<open>No event of the trace, run from the state, rebuilds.\<close>

fun rebuild_free :: "event list \<Rightarrow> state \<Rightarrow> bool" where
  "rebuild_free [] s = True"
| "rebuild_free (e # es) s = (\<not> rebuilds e s \<and> rebuild_free es (step e s))"

text \<open>
  The clock readings of the resize events of a trace, and those of the resize
  events that rebuild when the trace is run from the state.
\<close>

fun resize_clock :: "event list \<Rightarrow> int list" where
  "resize_clock [] = []"
| "resize_clock (Resize now v # es) = now # resize_clock es"
| "resize_clock (e # es) = resize_clock es"

fun rebuild_times :: "event list \<Rightarrow> state \<Rightarrow> int list" where
  "rebuild_times [] s = []"
| "rebuild_times (Resize now v # es) s =
     (if rebuilds (Resize now v) s then [now] else []) @ rebuild_times es (step (Resize now v) s)"
| "rebuild_times (e # es) s = rebuild_times es (step e s)"

text \<open>
  The visibility events of a trace are changes: each reports the opposite of
  the visibility before it, \<open>h\<close> being \<^verbatim>\<open>document.hidden\<close> at the start.
\<close>

fun alternating :: "bool \<Rightarrow> event list \<Rightarrow> bool" where
  "alternating h [] = True"
| "alternating h (VisibilityChange b # es) = (b \<noteq> h \<and> alternating b es)"
| "alternating h (e # es) = alternating h es"

text \<open>
  One animation loop: while the page is visible the only pending callback is
  the one \<^verbatim>\<open>animId\<close> names, and none is pending while it is hidden.
\<close>

definition single_loop :: "state \<Rightarrow> bool" where
  "single_loop s = (animId s = handle s \<and> callbacks s = (if hidden s then [] else [animId s]))"

text \<open>
  The three variables the script requires, and a run in which everything is in
  place: a complete \<^verbatim>\<open>.env\<close>, no arguments, a build that succeeds and fills
  \<^verbatim>\<open>dist\<close>, and an \<^verbatim>\<open>aws\<close> tool that succeeds.
\<close>

definition required_vars :: "string list" where
  "required_vars = [''S3_BUCKET'', ''AWS_REGION'', ''CLOUDFRONT_DISTRIBUTION_ID'']"

definition sound_world :: deploy_world where
  "sound_world =
     \<lparr>root_dir = ''/srv/portfolio'',
      env_file = Some [(''S3_BUCKET'', ''my-portfolio''), (''AWS_REGION'', ''us-east-1''),
                       (''CLOUDFRONT_DISTRIBUTION_ID'', ''E2EXAMPLE'')],
      environ = [(''HOME'', ''/root'')],
      args = [],
      dist_before = None,
      build_status = 0,
      dist_after_build = Some [''css'', ''index.html'', ''js''],
      sync_html_status = 0,
      sync_assets_status = 0,
      invalidation_status = 0,
      invalidation_output = ''I3EXAMPLE'' @ [CHR 0x0A]\<rparr>"

text \<open>The directory is missing or has no entry.\<close>

definition missing_or_empty :: "string list option \<Rightarrow> bool" where
  "missing_or_empty d = (d = None \<or> d = Some [])"

text \<open>The directory the script inspects after its build step.\<close>

definition dist_inspected :: "deploy_world \<Rightarrow> string list option" where
  "dist_inspected w = (if ''--skip-build'' \<in> set (args w) then dist_before w else dist_after_build w)"

text \<open>
  Every particle of the state lies within the overscan margin of 10 around the
  viewport the closure currently holds.
\<close>

definition in_bounds :: "state \<Rightarrow> bool" where
  "in_bounds s =
     list_all (\<lambda>p. - 10 \<le> px p \<and> px p \<le> width s + 10 \<and> - 10 \<le> py p \<and> py p \<le> height s + 10)
       (particles s)"

text \<open>The layouts that the resize events of a trace report have no negative extent.\<close>

fun nonneg_layouts :: "event list \<Rightarrow> bool" where
  "nonneg_layouts [] = True"
| "nonneg_layouts (Resize now v # es) =
     (0 \<le> offsetWidth v \<and> 0 \<le> offsetHeight v \<and> nonneg_layouts es)"
| "nonneg_layouts (e # es) = nonneg_layouts es"

section \<open>Properties\<close>

subsection \<open>Field-wise effect of the operations\<close>

lemma requestAnimationFrame_fst: "fst (requestAnimationFrame s) = handle s + 1"
  by (simp add: requestAnimationFrame_def Let_def)

lemma requestAnimationFrame_snd:
  "snd (requestAnimationFrame s) = s\<lparr>callbacks := callbacks s @ [handle s + 1], handle := handle s + 1\<rparr>"
  by (simp add: requestAnimationFrame_def Let_def)

lemma frame_eq:
  "frame s = s\<lparr>particles := map (move (width s) (height s)) (particles s),
     canvas_log := canvas_log s @ ClearRect 0 0 (width s) (height s)
       # map draw (map (move (width s) (height s)) (particles s))
       @ drawLines (map (move (width s) (height s)) (particles s)),
     callbacks := callbacks s @ [handle s + 1],
     handle := handle s + 1,
     animId := handle s + 1\<rparr>"
  by (simp add: frame_def Let_def split_beta requestAnimationFrame_fst requestAnimationFrame_snd)

lemma length_make_particles: "length (fst (make_particles n w h rs k)) = n"
  by (induction n arbitrary: k) (simp_all add: split_beta)

lemma buildParticles_eq:
  "buildParticles s =
     s\<lparr>particles := fst (make_particles (nat (PARTICLE_COUNT s)) (width s) (height s) (rnd s) (rnd_pos s)),
       rnd_pos := snd (make_particles (nat (PARTICLE_COUNT s)) (width s) (height s) (rnd s) (rnd_pos s))\<rparr>"
  by (simp add: buildParticles_def split_beta)

lemma on_resize_eq:
  "on_resize now s =
     (if now - throttle_last s \<ge> 200 then (buildParticles (resize s))\<lparr>throttle_last := now\<rparr> else s)"
  by (simp add: on_resize_def throttle_def)

lemma on_visibilitychange_eq:
  "on_visibilitychange s =
     (if hidden s then s\<lparr>callbacks := filter (\<lambda>c. c \<noteq> animId s) (callbacks s)\<rparr>
      else s\<lparr>callbacks := callbacks s @ [handle s + 1], handle := handle s + 1,
              animId := handle s + 1\<rparr>)"
  by (simp add: on_visibilitychange_def cancelAnimationFrame_def split_beta
      requestAnimationFrame_fst requestAnimationFrame_snd)

lemma start_eq:
  "start v hid rs =
     frame (buildParticles
       \<lparr>width = real_of_int (offsetWidth v), height = real_of_int (offsetHeight v),
        particles = [], animId = 0,
        PARTICLE_COUNT = min 70 \<lfloor>real_of_int (innerWidth v) / 16\<rfloor>,
        throttle_last = 0, win = v, hidden = hid, callbacks = [], handle = 0,
        rnd = rs, rnd_pos = 0,
        canvas_size = (real_of_int (offsetWidth v) * (if devicePixelRatio v = 0 then 1 else devicePixelRatio v),
                       real_of_int (offsetHeight v) * (if devicePixelRatio v = 0 then 1 else devicePixelRatio v)),
        transform = (if devicePixelRatio v = 0 then 1 else devicePixelRatio v),
        canvas_log = []\<rparr>)"
  by (simp add: start_def resize_def Let_def)

lemma start_fields:
  "width (start v hid rs) = real_of_int (offsetWidth v)"
  "height (start v hid rs) = real_of_int (offsetHeight v)"
  "throttle_last (start v hid rs) = 0"
  "win (start v hid rs) = v"
  "hidden (start v hid rs) = hid"
  "callbacks (start v hid rs) = [1]"
  "handle (start v hid rs) = 1"
  "animId (start v hid rs) = 1"
  "PARTICLE_COUNT (start v hid rs) = min 70 \<lfloor>real_of_int (innerWidth v) / 16\<rfloor>"
  by (simp_all add: start_eq frame_eq buildParticles_eq)

subsection \<open>The number of particles\<close>

lemma count_frame:
  "length (particles (frame s)) = length (particles s) \<and> PARTICLE_COUNT (frame s) = PARTICLE_COUNT s"
  by (simp add: frame_eq)

lemma count_frames:
  "length (particles (fold (\<lambda>c. frame) cs s)) = length (particles s)
   \<and> PARTICLE_COUNT (fold (\<lambda>c. frame) cs s) = PARTICLE_COUNT s"
  by (induction cs arbitrary: s) (simp_all add: count_frame)

lemma count_build:
  "count_ok (buildParticles s) \<and> PARTICLE_COUNT (buildParticles s) = PARTICLE_COUNT s"
  by (simp add: buildParticles_eq count_ok_def length_make_particles)

lemma count_resize: "PARTICLE_COUNT (resize s) = PARTICLE_COUNT s"
  by (simp add: resize_def Let_def)

lemma count_step:
  assumes "count_ok s"
  shows "count_ok (step e s) \<and> PARTICLE_COUNT (step e s) = PARTICLE_COUNT s"
proof (cases e)
  case (Resize now v)
  with assms count_build[of "resize (s\<lparr>win := v\<rparr>)"] show ?thesis
    by (simp add: on_resize_eq count_ok_def count_resize)
next
  case (VisibilityChange b)
  with assms show ?thesis
    by (simp add: on_visibilitychange_eq count_ok_def)
next
  case AnimationFrame
  with assms count_frames[of "callbacks s" "s\<lparr>callbacks := []\<rparr>"] show ?thesis
    by (simp add: count_ok_def)
qed

lemma count_run:
  "count_ok s \<Longrightarrow> count_ok (run evs s) \<and> PARTICLE_COUNT (run evs s) = PARTICLE_COUNT s"
  unfolding run_def
proof (induction evs arbitrary: s)
  case Nil
  then show ?case by simp
next
  case (Cons e evs)
  from count_step[OF Cons.prems, of e] Cons.IH[of "step e s"] show ?case by simp
qed

lemma count_start: "count_ok (start v hid rs)"
  unfolding start_def using count_build count_frame by (simp add: count_ok_def)

lemma floor_sixteenth: "\<lfloor>real_of_int W / 16\<rfloor> = W div 16"
  using floor_divide_of_int_eq[of W 16, where ?'a = real] by simp

lemma length_particles_run:
  "length (particles (run evs (start v hid rs))) = nat (min 70 (innerWidth v div 16))"
  using count_start[of v hid rs] count_run[of "start v hid rs" evs]
  by (simp add: count_ok_def floor_sixteenth start_fields)

text \<open>
  C1 (as amended). For every viewport width \<open>W \<ge> 0\<close> read from
  \<^verbatim>\<open>window.innerWidth\<close> when the script starts, the particle field holds
  exactly \<open>min 70 (W div 16)\<close> particles at startup and after every later
  event, resize rebuilds included: \<^verbatim>\<open>PARTICLE_COUNT\<close> is a constant of the
  closure, computed once, and a rebuild does not read the viewport width again.
\<close>

theorem particle_count_fixed_at_startup:
  assumes "0 \<le> innerWidth v"
  shows "int (length (particles (run evs (start v hid rs)))) = min 70 (innerWidth v div 16)
         \<and> 0 \<le> min 70 (innerWidth v div 16)"
  using assms by (simp add: length_particles_run pos_imp_zdiv_nonneg_iff)

theorem particle_count_fixed_at_startup_witness:
  "0 \<le> innerWidth (layout 1024 768)
   \<and> int (length (particles (run [Resize 1000 (layout 320 568), AnimationFrame]
                             (start (layout 1024 768) False (\<lambda>i. 1 / 2))))) = 64"
  using particle_count_fixed_at_startup
          [of "layout 1024 768" "[Resize 1000 (layout 320 568), AnimationFrame]" False "\<lambda>i. 1 / 2"]
  by (simp add: layout_def)

text \<open>
  C1 as stated fails: started at width 320 (20 particles) and resized to width
  1600, the handler runs (\<^verbatim>\<open>width\<close> becomes 1600) and rebuilds 20 particles,
  not \<open>min 70 (1600 div 16) = 70\<close>.
\<close>

theorem particle_count_not_rederived:
  "width (run [Resize 1000 (layout 1600 900)] (start (layout 320 568) False (\<lambda>i. 1 / 2))) = 1600
   \<and> int (length (particles (run [Resize 1000 (layout 1600 900)]
                               (start (layout 320 568) False (\<lambda>i. 1 / 2)))))
     \<noteq> min 70 (innerWidth (win (run [Resize 1000 (layout 1600 900)]
                                   (start (layout 320 568) False (\<lambda>i. 1 / 2)))) div 16)"
proof -
  have "length (particles (run [Resize 1000 (layout 1600 900)]
                               (start (layout 320 568) False (\<lambda>i. 1 / 2)))) = 20"
    by (simp add: length_particles_run layout_def)
  moreover have "win (run [Resize 1000 (layout 1600 900)] (start (layout 320 568) False (\<lambda>i. 1 / 2)))
      = layout 1600 900"
    by (simp add: run_def on_resize_eq start_fields buildParticles_eq resize_def Let_def)
  moreover have "width (run [Resize 1000 (layout 1600 900)] (start (layout 320 568) False (\<lambda>i. 1 / 2)))
      = 1600"
    by (simp add: run_def on_resize_eq start_fields buildParticles_eq resize_def Let_def layout_def)
  ultimately show ?thesis by (simp add: layout_def)
qed

subsection \<open>A single particle\<close>

lemma move_fixed_fields:
  "pvx (move w h p) = pvx p" "pvy (move w h p) = pvy p"
  "pr (move w h p) = pr p" "pt (move w h p) = pt p"
  by (simp_all add: move_def Let_def)

lemma move_in_bounds:
  assumes "0 \<le> w" "0 \<le> h"
  shows "- 10 \<le> px (move w h p) \<and> px (move w h p) \<le> w + 10
         \<and> - 10 \<le> py (move w h p) \<and> py (move w h p) \<le> h + 10"
  using assms by (simp add: move_def Let_def)

lemma reset_position:
  assumes "0 \<le> rs k" "rs k < 1" "0 \<le> rs (k + 1)" "rs (k + 1) < 1"
  shows "0 < w \<Longrightarrow> 0 \<le> px (fst (reset w h b rs k)) \<and> px (fst (reset w h b rs k)) < w"
    and "0 < h \<Longrightarrow> 0 \<le> py (fst (reset w h b rs k)) \<and> py (fst (reset w h b rs k)) < h"
    and "0 \<le> w \<Longrightarrow> 0 \<le> px (fst (reset w h b rs k)) \<and> px (fst (reset w h b rs k)) \<le> w"
    and "0 \<le> h \<Longrightarrow> 0 \<le> py (fst (reset w h b rs k)) \<and> py (fst (reset w h b rs k)) \<le> h"
proof -
  show "0 < w \<Longrightarrow> 0 \<le> px (fst (reset w h b rs k)) \<and> px (fst (reset w h b rs k)) < w"
    using assms(1,2) by (simp add: reset_def)
  show "0 < h \<Longrightarrow> 0 \<le> py (fst (reset w h b rs k)) \<and> py (fst (reset w h b rs k)) < h"
    using assms(3,4) by (simp add: reset_def)
  show "0 \<le> w \<Longrightarrow> 0 \<le> px (fst (reset w h b rs k)) \<and> px (fst (reset w h b rs k)) \<le> w"
    using assms(1,2) by (simp add: reset_def mult_left_le_one_le)
  show "0 \<le> h \<Longrightarrow> 0 \<le> py (fst (reset w h b rs k)) \<and> py (fst (reset w h b rs k)) \<le> h"
    using assms(3,4) by (simp add: reset_def mult_left_le_one_le)
qed

lemma make_particles_in_viewport:
  assumes "\<forall>k. 0 \<le> rs k \<and> rs k < 1" and "0 \<le> w" and "0 \<le> h"
  shows "list_all (\<lambda>p. 0 \<le> px p \<and> px p \<le> w \<and> 0 \<le> py p \<and> py p \<le> h)
           (fst (make_particles n w h rs k))"
proof (induction n arbitrary: k)
  case 0
  then show ?case by simp
next
  case (Suc n)
  have "0 \<le> rs k" "rs k < 1" "0 \<le> rs (k + 1)" "rs (k + 1) < 1"
    using assms(1) by simp_all
  then have "0 \<le> px (fst (reset w h True rs k)) \<and> px (fst (reset w h True rs k)) \<le> w"
    and "0 \<le> py (fst (reset w h True rs k)) \<and> py (fst (reset w h True rs k)) \<le> h"
    using reset_position(3,4)[where rs = rs and k = k and w = w and h = h and b = True] assms(2,3)
    by simp_all
  with Suc show ?case
    by (simp add: split_beta new_Particle_def)
qed

lemma in_bounds_frame:
  assumes "0 \<le> width s" and "0 \<le> height s"
  shows "in_bounds (frame s) \<and> width (frame s) = width s \<and> height (frame s) = height s
         \<and> rnd (frame s) = rnd s"
  using assms move_in_bounds[of "width s" "height s"]
  by (simp add: in_bounds_def frame_eq list_all_iff)

lemma in_bounds_frames:
  assumes "0 \<le> width s" and "0 \<le> height s" and "in_bounds s"
  shows "in_bounds (fold (\<lambda>c. frame) cs s) \<and> width (fold (\<lambda>c. frame) cs s) = width s
         \<and> height (fold (\<lambda>c. frame) cs s) = height s \<and> rnd (fold (\<lambda>c. frame) cs s) = rnd s"
  using assms
proof (induction cs arbitrary: s)
  case Nil
  then show ?case by simp
next
  case (Cons c cs)
  from in_bounds_frame[OF Cons.prems(1,2)] Cons.IH[of "frame s"] Cons.prems(1,2)
  show ?case by simp
qed

lemma in_bounds_rebuild:
  assumes "\<forall>k. 0 \<le> rnd s k \<and> rnd s k < 1" and "0 \<le> offsetWidth (win s)" and "0 \<le> offsetHeight (win s)"
  shows "in_bounds (buildParticles (resize s))
         \<and> width (buildParticles (resize s)) = real_of_int (offsetWidth (win s))
         \<and> height (buildParticles (resize s)) = real_of_int (offsetHeight (win s))
         \<and> rnd (buildParticles (resize s)) = rnd s"
proof -
  have "list_all (\<lambda>p. 0 \<le> px p \<and> px p \<le> real_of_int (offsetWidth (win s))
                    \<and> 0 \<le> py p \<and> py p \<le> real_of_int (offsetHeight (win s)))
          (fst (make_particles (nat (PARTICLE_COUNT s)) (real_of_int (offsetWidth (win s)))
                  (real_of_int (offsetHeight (win s))) (rnd s) (rnd_pos s)))"
    using make_particles_in_viewport[OF assms(1)] assms(2,3) by simp
  then have "list_all (\<lambda>p. - 10 \<le> px p \<and> px p \<le> real_of_int (offsetWidth (win s)) + 10
                    \<and> - 10 \<le> py p \<and> py p \<le> real_of_int (offsetHeight (win s)) + 10)
          (fst (make_particles (nat (PARTICLE_COUNT s)) (real_of_int (offsetWidth (win s)))
                  (real_of_int (offsetHeight (win s))) (rnd s) (rnd_pos s)))"
    by (auto simp add: list_all_iff)
  then show ?thesis
    by (simp add: in_bounds_def buildParticles_eq resize_def Let_def)
qed

lemma in_bounds_step:
  assumes "\<forall>k. 0 \<le> rnd s k \<and> rnd s k < 1" and "0 \<le> width s" and "0 \<le> height s"
    and "in_bounds s" and "nonneg_layouts [e]"
  shows "in_bounds (step e s) \<and> 0 \<le> width (step e s) \<and> 0 \<le> height (step e s)
         \<and> rnd (step e s) = rnd s"
proof (cases e)
  case (Resize now v)
  with assms(5) have v: "0 \<le> offsetWidth v" "0 \<le> offsetHeight v" by simp_all
  show ?thesis
  proof (cases "now - throttle_last s \<ge> 200")
    case True
    have built: "in_bounds (buildParticles (resize (s\<lparr>win := v\<rparr>)))"
      and geom: "width (buildParticles (resize (s\<lparr>win := v\<rparr>))) = real_of_int (offsetWidth v)"
        "height (buildParticles (resize (s\<lparr>win := v\<rparr>))) = real_of_int (offsetHeight v)"
        "rnd (buildParticles (resize (s\<lparr>win := v\<rparr>))) = rnd s"
      using in_bounds_rebuild[of "s\<lparr>win := v\<rparr>"] assms(1) v by simp_all
    have "in_bounds ((buildParticles (resize (s\<lparr>win := v\<rparr>)))\<lparr>throttle_last := now\<rparr>)"
      using built unfolding in_bounds_def by simp
    with True Resize v geom show ?thesis
      by (simp add: on_resize_eq)
  next
    case False
    with Resize assms(2,3,4) show ?thesis
      by (simp add: on_resize_eq in_bounds_def)
  qed
next
  case (VisibilityChange b)
  with assms(2,3,4) show ?thesis
    by (simp add: on_visibilitychange_eq in_bounds_def)
next
  case AnimationFrame
  have "in_bounds (s\<lparr>callbacks := []\<rparr>)" using assms(4) by (simp add: in_bounds_def)
  with AnimationFrame assms(2,3) in_bounds_frames[of "s\<lparr>callbacks := []\<rparr>" "callbacks s"]
  show ?thesis by simp
qed

lemma in_bounds_run:
  assumes "\<forall>k. 0 \<le> rnd s k \<and> rnd s k < 1" and "0 \<le> width s" and "0 \<le> height s"
    and "in_bounds s" and "nonneg_layouts evs"
  shows "in_bounds (run evs s)"
  using assms unfolding run_def
proof (induction evs arbitrary: s)
  case Nil
  then show ?case by simp
next
  case (Cons e evs)
  have one: "nonneg_layouts [e]" and rest: "nonneg_layouts evs"
    using Cons.prems(5) by (cases e; simp)+
  from in_bounds_step[OF Cons.prems(1,2,3,4) one] Cons.prems(1)
  have "\<forall>k. 0 \<le> rnd (step e s) k \<and> rnd (step e s) k < 1" "0 \<le> width (step e s)"
    "0 \<le> height (step e s)" "in_bounds (step e s)"
    by simp_all
  from Cons.IH[OF this rest] show ?case by simp
qed

lemma in_bounds_start:
  assumes "\<forall>k. 0 \<le> rs k \<and> rs k < 1" and "0 \<le> offsetWidth v" and "0 \<le> offsetHeight v"
  shows "in_bounds (start v hid rs) \<and> rnd (start v hid rs) = rs"
proof -
  have "0 \<le> width (start v hid rs)" "0 \<le> height (start v hid rs)"
    using assms(2,3) by (simp_all add: start_fields)
  moreover have "start v hid rs = frame (buildParticles
       \<lparr>width = real_of_int (offsetWidth v), height = real_of_int (offsetHeight v),
        particles = [], animId = 0,
        PARTICLE_COUNT = min 70 \<lfloor>real_of_int (innerWidth v) / 16\<rfloor>,
        throttle_last = 0, win = v, hidden = hid, callbacks = [], handle = 0,
        rnd = rs, rnd_pos = 0,
        canvas_size = (real_of_int (offsetWidth v) * (if devicePixelRatio v = 0 then 1 else devicePixelRatio v),
                       real_of_int (offsetHeight v) * (if devicePixelRatio v = 0 then 1 else devicePixelRatio v)),
        transform = (if devicePixelRatio v = 0 then 1 else devicePixelRatio v),
        canvas_log = []\<rparr>)" (is "_ = frame ?b")
    by (rule start_eq)
  moreover have "width ?b = real_of_int (offsetWidth v)" "height ?b = real_of_int (offsetHeight v)"
    "rnd ?b = rs"
    by (simp_all add: buildParticles_eq)
  ultimately show ?thesis
    using in_bounds_frame[of ?b] assms(2,3) by simp
qed

lemma in_bounds_reachable:
  assumes "\<forall>k. 0 \<le> rs k \<and> rs k < 1" and "0 \<le> offsetWidth v" and "0 \<le> offsetHeight v"
    and "nonneg_layouts evs"
  shows "in_bounds (run evs (start v hid rs))"
proof -
  have "in_bounds (start v hid rs)" "rnd (start v hid rs) = rs"
    using in_bounds_start[OF assms(1,2,3)] by simp_all
  moreover have "0 \<le> width (start v hid rs)" "0 \<le> height (start v hid rs)"
    using assms(2,3) by (simp_all add: start_fields)
  ultimately show ?thesis
    using in_bounds_run[of "start v hid rs" evs] assms(1,4) by simp
qed

text \<open>
  C2 (as amended). A particle created in a viewport of width \<open>w \<ge> 0\<close> and
  height \<open>h \<ge> 0\<close> from draws in \<open>[0, 1)\<close> has, after any number of move
  steps, its position in the closed ranges \<open>[-10, w + 10]\<close> and
  \<open>[-10, h + 10]\<close>. Accordingly, in every state the script reaches, every
  particle lies in these ranges for the width and height the closure holds.
\<close>

theorem move_wrap_invariant:
  "(0 \<le> w \<and> 0 \<le> h \<and> (\<forall>i<6. 0 \<le> rs (k + i) \<and> rs (k + i) < 1) \<longrightarrow>
      - 10 \<le> px ((move w h ^^ n) (fst (new_Particle w h rs k)))
      \<and> px ((move w h ^^ n) (fst (new_Particle w h rs k))) \<le> w + 10
      \<and> - 10 \<le> py ((move w h ^^ n) (fst (new_Particle w h rs k)))
      \<and> py ((move w h ^^ n) (fst (new_Particle w h rs k))) \<le> h + 10)
   \<and> ((\<forall>i. 0 \<le> rs i \<and> rs i < 1) \<and> 0 \<le> offsetWidth v \<and> 0 \<le> offsetHeight v
       \<and> nonneg_layouts evs \<longrightarrow>
      in_bounds (run evs (start v hid rs)))"
proof -
  have single: "- 10 \<le> px ((move w h ^^ n) (fst (new_Particle w h rs k)))
      \<and> px ((move w h ^^ n) (fst (new_Particle w h rs k))) \<le> w + 10
      \<and> - 10 \<le> py ((move w h ^^ n) (fst (new_Particle w h rs k)))
      \<and> py ((move w h ^^ n) (fst (new_Particle w h rs k))) \<le> h + 10"
    if geom: "0 \<le> w" "0 \<le> h" and draws: "\<forall>i<6. 0 \<le> rs (k + i) \<and> rs (k + i) < 1"
  proof (cases n)
    case 0
    have "0 \<le> rs k \<and> rs k < 1" using draws[rule_format, of 0] by simp
    moreover have "0 \<le> rs (k + 1) \<and> rs (k + 1) < 1" using draws[rule_format, of 1] by simp
    ultimately have "0 \<le> px (fst (reset w h True rs k)) \<and> px (fst (reset w h True rs k)) \<le> w"
      and "0 \<le> py (fst (reset w h True rs k)) \<and> py (fst (reset w h True rs k)) \<le> h"
      using reset_position(3,4)[of rs k] geom by simp_all
    with 0 show ?thesis by (simp add: new_Particle_def)
  next
    case (Suc m)
    then show ?thesis using move_in_bounds[OF geom] by simp
  qed
  show ?thesis using single in_bounds_reachable by blast
qed

theorem move_wrap_invariant_witness:
  "(0::real) \<le> 800 \<and> (0::real) \<le> 600
   \<and> - 10 \<le> px ((move 800 600 ^^ 45) (fst (new_Particle 800 600 (\<lambda>i. 0) 0)))
   \<and> px ((move 800 600 ^^ 45) (fst (new_Particle 800 600 (\<lambda>i. 0) 0))) \<le> 800 + 10
   \<and> - 10 \<le> py ((move 800 600 ^^ 45) (fst (new_Particle 800 600 (\<lambda>i. 0) 0)))
   \<and> py ((move 800 600 ^^ 45) (fst (new_Particle 800 600 (\<lambda>i. 0) 0))) \<le> 600 + 10
   \<and> nonneg_layouts [AnimationFrame, Resize 1000 (layout 320 568), AnimationFrame]
   \<and> in_bounds (run [AnimationFrame, Resize 1000 (layout 320 568), AnimationFrame]
                  (start (layout 800 600) False (\<lambda>i. 0)))"
  using move_wrap_invariant[of 800 600 "\<lambda>i. 0" 0 45 "layout 800 600"
          "[AnimationFrame, Resize 1000 (layout 320 568), AnimationFrame]" False]
  by (simp add: layout_def)

text \<open>
  C2 as stated fails at the far edge: a particle created at \<open>x = 0\<close> with
  velocity \<open>- 0.225\<close> (every draw 0) passes \<open>- 10\<close> on its 45th move and is
  put at \<open>width + 10\<close>, which the half-open range excludes.
\<close>

theorem move_wrap_reaches_far_edge:
  "\<not> px ((move 800 600 ^^ 45) (fst (new_Particle 800 600 (\<lambda>i. 0) 0))) < 800 + 10"
  by (simp add: eval_nat_numeral new_Particle_def reset_def move_def Let_def)

text \<open>
  C7 (as amended). For draws in \<open>[0, 1)\<close> and a viewport of width \<open>w \<ge> 0\<close>
  and height \<open>h \<ge> 0\<close>, a particle fresh from \<^verbatim>\<open>reset\<close> (with either value
  of \<^verbatim>\<open>initial\<close>, hence also from the constructor) has \<open>x\<close> in \<open>[0, w]\<close>,
  and in \<open>[0, w)\<close> when \<open>w\<close> is positive; \<open>y\<close> in \<open>[0, h]\<close>, and in
  \<open>[0, h)\<close> when \<open>h\<close> is positive; each velocity component in
  \<open>[- 0.225, 0.225]\<close>, computed as \<open>(draw - 0.5) * 0.45\<close>; its radius in
  \<open>[0.8, 2.6)\<close> and its colour factor in \<open>[0, 1)\<close>.
\<close>

theorem reset_ranges:
  assumes "0 \<le> w" and "0 \<le> h" and "\<forall>i<6. 0 \<le> rs (k + i) \<and> rs (k + i) < 1"
  shows "0 \<le> px (fst (reset w h b rs k)) \<and> px (fst (reset w h b rs k)) \<le> w
       \<and> (0 < w \<longrightarrow> px (fst (reset w h b rs k)) < w)
       \<and> 0 \<le> py (fst (reset w h b rs k)) \<and> py (fst (reset w h b rs k)) \<le> h
       \<and> (0 < h \<longrightarrow> py (fst (reset w h b rs k)) < h)
       \<and> - 0.225 \<le> pvx (fst (reset w h b rs k)) \<and> pvx (fst (reset w h b rs k)) \<le> 0.225
       \<and> pvx (fst (reset w h b rs k)) = (rs (k + 2) - 0.5) * 0.45
       \<and> - 0.225 \<le> pvy (fst (reset w h b rs k)) \<and> pvy (fst (reset w h b rs k)) \<le> 0.225
       \<and> pvy (fst (reset w h b rs k)) = (rs (k + 3) - 0.5) * 0.45
       \<and> 0.8 \<le> pr (fst (reset w h b rs k)) \<and> pr (fst (reset w h b rs k)) < 2.6
       \<and> 0 \<le> pt (fst (reset w h b rs k)) \<and> pt (fst (reset w h b rs k)) < 1
       \<and> fst (new_Particle w h rs k) = fst (reset w h True rs k)"
proof -
  have r0: "0 \<le> rs k" "rs k < 1" using assms(3)[rule_format, of 0] by simp_all
  have r1: "0 \<le> rs (k + 1)" "rs (k + 1) < 1" using assms(3)[rule_format, of 1] by simp_all
  have r2: "0 \<le> rs (k + 2)" "rs (k + 2) < 1" using assms(3)[rule_format, of 2] by simp_all
  have r3: "0 \<le> rs (k + 3)" "rs (k + 3) < 1" using assms(3)[rule_format, of 3] by simp_all
  have r4: "0 \<le> rs (k + 4)" "rs (k + 4) < 1" using assms(3)[rule_format, of 4] by simp_all
  have r5: "0 \<le> rs (k + 5)" "rs (k + 5) < 1" using assms(3)[rule_format, of 5] by simp_all
  have closed: "0 \<le> px (fst (reset w h b rs k)) \<and> px (fst (reset w h b rs k)) \<le> w"
    "0 \<le> py (fst (reset w h b rs k)) \<and> py (fst (reset w h b rs k)) \<le> h"
    using reset_position(3,4)[OF r0 r1] assms(1,2) by simp_all
  have strict_x: "px (fst (reset w h b rs k)) < w" if "0 < w"
    using reset_position(1)[OF r0 r1 that] by simp
  have strict_y: "py (fst (reset w h b rs k)) < h" if "0 < h"
    using reset_position(2)[OF r0 r1 that] by simp
  have rest: "- 0.225 \<le> pvx (fst (reset w h b rs k)) \<and> pvx (fst (reset w h b rs k)) \<le> 0.225
       \<and> pvx (fst (reset w h b rs k)) = (rs (k + 2) - 0.5) * 0.45
       \<and> - 0.225 \<le> pvy (fst (reset w h b rs k)) \<and> pvy (fst (reset w h b rs k)) \<le> 0.225
       \<and> pvy (fst (reset w h b rs k)) = (rs (k + 3) - 0.5) * 0.45
       \<and> 0.8 \<le> pr (fst (reset w h b rs k)) \<and> pr (fst (reset w h b rs k)) < 2.6
       \<and> 0 \<le> pt (fst (reset w h b rs k)) \<and> pt (fst (reset w h b rs k)) < 1"
    using r2 r3 r4 r5 by (simp add: reset_def)
  have ctor: "fst (new_Particle w h rs k) = fst (reset w h True rs k)"
    by (simp add: new_Particle_def)
  show ?thesis using closed strict_x strict_y rest ctor by blast
qed

theorem reset_ranges_witness:
  "(0::real) < 800 \<and> (0::real) < 600 \<and> (0::real) \<le> 1 / 2 \<and> (1 / 2::real) < 1
   \<and> px (fst (reset 800 600 True (\<lambda>i. 1 / 2) 0)) < 800
   \<and> py (fst (reset 800 600 True (\<lambda>i. 1 / 2) 0)) < 600
   \<and> pvx (fst (reset 800 600 True (\<lambda>i. 1 / 2) 0)) \<le> 0.225
   \<and> pr (fst (reset 800 600 True (\<lambda>i. 1 / 2) 0)) < 2.6
   \<and> pt (fst (reset 800 600 True (\<lambda>i. 1 / 2) 0)) < 1
   \<and> px (fst (reset 0 600 True (\<lambda>i. 1 / 2) 0)) \<le> 0"
  using reset_ranges[of 800 600 "\<lambda>i. 1 / 2" 0 True] reset_ranges[of 0 600 "\<lambda>i. 1 / 2" 0 True]
  by simp

text \<open>
  C7 as stated fails for a canvas without extent. With \<^verbatim>\<open>offsetWidth\<close> and
  \<^verbatim>\<open>offsetHeight\<close> 0 in a window 1024 wide the script holds width 0 and
  builds 64 particles; each is created at \<open>x = 0\<close> and \<open>y = 0\<close>, which the
  empty ranges \<open>[0, 0)\<close> do not contain.
\<close>

theorem reset_in_empty_viewport:
  "width (start \<lparr>innerWidth = 1024, offsetWidth = 0, offsetHeight = 0, devicePixelRatio = 1\<rparr>
            False (\<lambda>i. 1 / 2)) = 0
   \<and> height (start \<lparr>innerWidth = 1024, offsetWidth = 0, offsetHeight = 0, devicePixelRatio = 1\<rparr>
            False (\<lambda>i. 1 / 2)) = 0
   \<and> length (particles
        (start \<lparr>innerWidth = 1024, offsetWidth = 0, offsetHeight = 0, devicePixelRatio = 1\<rparr>
            False (\<lambda>i. 1 / 2))) = 64
   \<and> px (fst (new_Particle 0 0 (\<lambda>i. 1 / 2) 0)) = 0
   \<and> py (fst (new_Particle 0 0 (\<lambda>i. 1 / 2) 0)) = 0
   \<and> \<not> px (fst (new_Particle 0 0 (\<lambda>i. 1 / 2) 0)) < 0
   \<and> \<not> py (fst (new_Particle 0 0 (\<lambda>i. 1 / 2) 0)) < 0"
proof -
  have "length (particles (run []
        (start \<lparr>innerWidth = 1024, offsetWidth = 0, offsetHeight = 0, devicePixelRatio = 1\<rparr>
            False (\<lambda>i. 1 / 2)))) = 64"
    by (simp only: length_particles_run) simp
  then show ?thesis
    by (simp add: run_def start_fields new_Particle_def reset_def)
qed

text \<open>
  C10. The parameter \<^verbatim>\<open>initial\<close> of \<^verbatim>\<open>reset\<close> has no effect: for every
  viewport, source of draws and position in it, \<^verbatim>\<open>reset(true)\<close> and
  \<^verbatim>\<open>reset(false)\<close> (the default of a plain \<^verbatim>\<open>reset()\<close>) leave the same
  particle and consume the same draws, so the constructor is a plain reset.
\<close>

theorem reset_initial_irrelevant:
  "reset w h True rs k = reset w h False rs k
   \<and> new_Particle w h rs k = reset w h False rs k"
  by (simp add: reset_def new_Particle_def)

subsection \<open>Colour interpolation\<close>

text \<open>
  C4. Every channel of the interpolated colour is the rounding of the linear
  blend of the two anchor channels; for \<open>0 \<le> t \<le> u \<le> 1\<close> every channel is
  monotone (red and blue do not rise, green does not fall, as the anchors
  dictate); the colour is \<open>ACCENT\<close> at 0 and \<open>CYAN\<close> at 1.
\<close>

theorem interpolateColor_spec:
  "rgb_r (interpolateColor t)
     = round (real_of_int (rgb_r ACCENT) + (real_of_int (rgb_r CYAN) - real_of_int (rgb_r ACCENT)) * t)
   \<and> rgb_g (interpolateColor t)
     = round (real_of_int (rgb_g ACCENT) + (real_of_int (rgb_g CYAN) - real_of_int (rgb_g ACCENT)) * t)
   \<and> rgb_b (interpolateColor t)
     = round (real_of_int (rgb_b ACCENT) + (real_of_int (rgb_b CYAN) - real_of_int (rgb_b ACCENT)) * t)
   \<and> (0 \<le> t \<and> t \<le> u \<and> u \<le> 1 \<longrightarrow>
        rgb_r (interpolateColor u) \<le> rgb_r (interpolateColor t)
        \<and> rgb_g (interpolateColor t) \<le> rgb_g (interpolateColor u)
        \<and> rgb_b (interpolateColor u) \<le> rgb_b (interpolateColor t))
   \<and> interpolateColor 0 = ACCENT \<and> interpolateColor 1 = CYAN"
proof -
  have formula: "rgb_r (interpolateColor t)
     = round (real_of_int (rgb_r ACCENT) + (real_of_int (rgb_r CYAN) - real_of_int (rgb_r ACCENT)) * t)
   \<and> rgb_g (interpolateColor t)
     = round (real_of_int (rgb_g ACCENT) + (real_of_int (rgb_g CYAN) - real_of_int (rgb_g ACCENT)) * t)
   \<and> rgb_b (interpolateColor t)
     = round (real_of_int (rgb_b ACCENT) + (real_of_int (rgb_b CYAN) - real_of_int (rgb_b ACCENT)) * t)"
    by (simp add: interpolateColor_def Math_round_def round_def lerp_def)
  have mono: "rgb_r (interpolateColor u) \<le> rgb_r (interpolateColor t)
        \<and> rgb_g (interpolateColor t) \<le> rgb_g (interpolateColor u)
        \<and> rgb_b (interpolateColor u) \<le> rgb_b (interpolateColor t)" if "t \<le> u"
    using that
    by (auto simp add: interpolateColor_def Math_round_def lerp_def ACCENT_def CYAN_def
        intro!: floor_mono)
  have ends: "interpolateColor 0 = ACCENT \<and> interpolateColor 1 = CYAN"
    by (simp add: interpolateColor_def Math_round_def lerp_def ACCENT_def CYAN_def)
  show ?thesis using formula mono ends by blast
qed

theorem interpolateColor_spec_witness:
  "(0::real) \<le> 1 / 4 \<and> (1 / 4::real) \<le> 3 / 4 \<and> (3 / 4::real) \<le> 1
   \<and> rgb_r (interpolateColor (3 / 4)) \<le> rgb_r (interpolateColor (1 / 4))
   \<and> rgb_g (interpolateColor (1 / 4)) \<le> rgb_g (interpolateColor (3 / 4))
   \<and> rgb_b (interpolateColor (3 / 4)) \<le> rgb_b (interpolateColor (1 / 4))
   \<and> rgb_r (interpolateColor (1 / 4)) = round (124 + (34 - 124) * (1 / 4 :: real))"
  using interpolateColor_spec[of "1 / 4" "3 / 4"] by (simp add: ACCENT_def CYAN_def)

subsection \<open>Connecting lines\<close>

lemma connect_eq:
  "connect p q =
     (if sqrt ((px p - px q) * (px p - px q) + (py p - py q) * (py p - py q)) < 160
      then [StrokeLine (px p) (py p) (px q) (py q) (interpolateColor ((pt p + pt q) / 2))
              (line_alpha (sqrt ((px p - px q) * (px p - px q) + (py p - py q) * (py p - py q))))
              0.8]
      else [])"
  by (simp add: connect_def Let_def CONNECT_DIST_def)

lemma set_drawLines:
  "set (drawLines ps) =
     (\<Union>i\<in>{0..<length ps}. \<Union>j\<in>{i + 1..<length ps}. set (connect (ps ! i) (ps ! j)))"
  by (simp add: drawLines_def)

lemma drawn_line_sound:
  assumes "StrokeLine x1 y1 x2 y2 c a lw \<in> set (drawLines ps)"
  shows "sqrt ((x1 - x2) * (x1 - x2) + (y1 - y2) * (y1 - y2)) < 160
         \<and> a = (1 - sqrt ((x1 - x2) * (x1 - x2) + (y1 - y2) * (y1 - y2)) / 160) * 0.18
         \<and> lw = 0.8"
proof -
  from assms obtain i j where "StrokeLine x1 y1 x2 y2 c a lw \<in> set (connect (ps ! i) (ps ! j))"
    unfolding set_drawLines by blast
  then show ?thesis
    by (simp add: connect_eq line_alpha_def CONNECT_DIST_def split: if_splits)
qed

lemma drawn_line_complete:
  assumes "i < j" "j < length ps"
    and "sqrt ((px (ps ! i) - px (ps ! j)) * (px (ps ! i) - px (ps ! j))
             + (py (ps ! i) - py (ps ! j)) * (py (ps ! i) - py (ps ! j))) < 160"
  shows "\<exists>c a lw. StrokeLine (px (ps ! i)) (py (ps ! i)) (px (ps ! j)) (py (ps ! j)) c a lw
           \<in> set (drawLines ps)"
proof -
  have "set (connect (ps ! i) (ps ! j)) \<subseteq> set (drawLines ps)"
    unfolding set_drawLines using assms(1,2) by fastforce
  moreover have "StrokeLine (px (ps ! i)) (py (ps ! i)) (px (ps ! j)) (py (ps ! j))
        (interpolateColor ((pt (ps ! i) + pt (ps ! j)) / 2))
        (line_alpha (sqrt ((px (ps ! i) - px (ps ! j)) * (px (ps ! i) - px (ps ! j))
                         + (py (ps ! i) - py (ps ! j)) * (py (ps ! i) - py (ps ! j)))))
        0.8
      \<in> set (connect (ps ! i) (ps ! j))"
    using assms(3) by (simp add: connect_eq)
  ultimately show ?thesis by blast
qed

lemma line_alpha_limit: "(line_alpha \<longlongrightarrow> 0) (at_left 160)"
proof -
  have "((\<lambda>d. (1 - d / 160) * 0.18) \<longlongrightarrow> (1 - 160 / 160) * 0.18) (at_left (160::real))"
    by (intro tendsto_intros) simp_all
  then show ?thesis
    by (simp add: line_alpha_def[abs_def] CONNECT_DIST_def)
qed

text \<open>
  C3. In the lines a frame draws, the pair at indices \<open>i < j\<close> is joined by a
  line iff its Euclidean distance is below 160; every line drawn has the alpha
  \<open>(1 - d / 160) * 0.18\<close> of the distance \<open>d\<close> of its end points (and width
  0.8); that alpha falls strictly as \<open>d\<close> grows, tends to 0 as \<open>d\<close> tends to
  160 from below, and is 0.09 at distance 80. The lines of a frame are
  \<open>drawLines\<close> of the particles just moved.
\<close>

theorem drawLines_spec:
  "(i < j \<and> j < length ps \<longrightarrow>
      ((\<exists>c a lw. StrokeLine (px (ps ! i)) (py (ps ! i)) (px (ps ! j)) (py (ps ! j)) c a lw
           \<in> set (drawLines ps))
       \<longleftrightarrow> sqrt ((px (ps ! i) - px (ps ! j)) * (px (ps ! i) - px (ps ! j))
              + (py (ps ! i) - py (ps ! j)) * (py (ps ! i) - py (ps ! j))) < 160))
   \<and> (\<forall>x1 y1 x2 y2 c a lw. StrokeLine x1 y1 x2 y2 c a lw \<in> set (drawLines ps) \<longrightarrow>
        sqrt ((x1 - x2) * (x1 - x2) + (y1 - y2) * (y1 - y2)) < 160
        \<and> a = (1 - sqrt ((x1 - x2) * (x1 - x2) + (y1 - y2) * (y1 - y2)) / 160) * 0.18)
   \<and> line_alpha d = (1 - d / 160) * 0.18
   \<and> (d1 < d2 \<longrightarrow> line_alpha d2 < line_alpha d1)
   \<and> (line_alpha \<longlongrightarrow> 0) (at_left 160)
   \<and> line_alpha 80 = 0.09
   \<and> canvas_log (frame s) = canvas_log s @ ClearRect 0 0 (width s) (height s)
        # map draw (particles (frame s)) @ drawLines (particles (frame s))"
proof -
  have pair: "(\<exists>c a lw. StrokeLine (px (ps ! i)) (py (ps ! i)) (px (ps ! j)) (py (ps ! j)) c a lw
           \<in> set (drawLines ps))
       \<longleftrightarrow> sqrt ((px (ps ! i) - px (ps ! j)) * (px (ps ! i) - px (ps ! j))
              + (py (ps ! i) - py (ps ! j)) * (py (ps ! i) - py (ps ! j))) < 160"
    if "i < j" "j < length ps"
    using drawn_line_complete[OF that] drawn_line_sound by blast
  have every: "\<forall>x1 y1 x2 y2 c a lw. StrokeLine x1 y1 x2 y2 c a lw \<in> set (drawLines ps) \<longrightarrow>
        sqrt ((x1 - x2) * (x1 - x2) + (y1 - y2) * (y1 - y2)) < 160
        \<and> a = (1 - sqrt ((x1 - x2) * (x1 - x2) + (y1 - y2) * (y1 - y2)) / 160) * 0.18"
    using drawn_line_sound by blast
  have alpha: "line_alpha d = (1 - d / 160) * 0.18"
    by (simp add: line_alpha_def CONNECT_DIST_def)
  have decr: "line_alpha d2 < line_alpha d1" if "d1 < d2"
    using that by (simp add: line_alpha_def CONNECT_DIST_def)
  have at80: "line_alpha 80 = 0.09"
    by (simp add: line_alpha_def CONNECT_DIST_def)
  have log: "canvas_log (frame s) = canvas_log s @ ClearRect 0 0 (width s) (height s)
        # map draw (particles (frame s)) @ drawLines (particles (frame s))"
    by (simp add: frame_eq)
  show ?thesis using pair every alpha decr line_alpha_limit at80 log by blast
qed

theorem drawLines_spec_witness:
  "(0::nat) < 1 \<and> 1 < length [\<lparr>px = 0, py = 0, pvx = 0, pvy = 0, pr = 1, pt = 0\<rparr>,
                               \<lparr>px = 80, py = 0, pvx = 0, pvy = 0, pr = 1, pt = 1\<rparr>]
   \<and> (\<exists>c a lw. StrokeLine 0 0 80 0 c a lw
         \<in> set (drawLines [\<lparr>px = 0, py = 0, pvx = 0, pvy = 0, pr = 1, pt = 0\<rparr>,
                            \<lparr>px = 80, py = 0, pvx = 0, pvy = 0, pr = 1, pt = 1\<rparr>]))
   \<and> (80::real) < 160 \<and> line_alpha 160 < line_alpha 80"
proof -
  have "sqrt 6400 = 80" using real_sqrt_abs[of 80] by simp
  then show ?thesis
    using drawLines_spec[of 0 1 "[\<lparr>px = 0, py = 0, pvx = 0, pvy = 0, pr = 1, pt = 0\<rparr>,
                               \<lparr>px = 80, py = 0, pvx = 0, pvy = 0, pr = 1, pt = 1\<rparr>]" _ 80 160]
    by simp
qed

subsection \<open>What a frame leaves alone\<close>

lemma fixed_fields_move: "fixed_fields (move w h p) = fixed_fields p"
  by (simp add: fixed_fields_def move_fixed_fields)

lemma fixed_fields_moves: "fixed_fields ((move w h ^^ n) p) = fixed_fields p"
  by (induction n) (simp_all add: fixed_fields_move)

lemma fixed_fields_frame: "map fixed_fields (particles (frame s)) = map fixed_fields (particles s)"
  by (simp add: frame_eq fixed_fields_move comp_def)

lemma fixed_fields_frames:
  "map fixed_fields (particles (fold (\<lambda>c. frame) cs s)) = map fixed_fields (particles s)"
  by (induction cs arbitrary: s) (simp_all add: fixed_fields_frame)

lemma fixed_fields_step:
  assumes "\<not> rebuilds e s"
  shows "map fixed_fields (particles (step e s)) = map fixed_fields (particles s)"
proof (cases e)
  case (Resize now v)
  with assms show ?thesis by (simp add: on_resize_eq)
next
  case (VisibilityChange b)
  then show ?thesis by (simp add: on_visibilitychange_eq)
next
  case AnimationFrame
  then show ?thesis
    using fixed_fields_frames[of "callbacks s" "s\<lparr>callbacks := []\<rparr>"] by simp
qed

lemma fixed_fields_run:
  "rebuild_free evs s \<Longrightarrow> map fixed_fields (particles (run evs s)) = map fixed_fields (particles s)"
  unfolding run_def
proof (induction evs arbitrary: s)
  case Nil
  then show ?case by simp
next
  case (Cons e evs)
  then show ?case using fixed_fields_step[of e s] by simp
qed

lemma throttle_last_frames: "throttle_last (fold (\<lambda>c. frame) cs s) = throttle_last s"
  by (induction cs arbitrary: s) (simp_all add: frame_eq)

lemma throttle_last_step:
  "throttle_last (step e s) =
     (case e of Resize now v \<Rightarrow> if now - throttle_last s \<ge> 200 then now else throttle_last s
      | _ \<Rightarrow> throttle_last s)"
  by (cases e) (simp_all add: on_resize_eq on_visibilitychange_eq throttle_last_frames)

text \<open>
  C8. \<^verbatim>\<open>move\<close> assigns only \<open>x\<close> and \<open>y\<close>: \<open>vx\<close>, \<open>vy\<close>, \<open>r\<close> and \<open>t\<close>
  are the same after one move, after any number of moves and after a frame;
  and over any trace of events none of which rebuilds the particle set, every
  particle keeps the velocity, radius and colour factor it was created with.
  A resize that rebuilds replaces the whole set by new particles.
\<close>

theorem move_changes_position_only:
  "pvx (move w h p) = pvx p \<and> pvy (move w h p) = pvy p
   \<and> pr (move w h p) = pr p \<and> pt (move w h p) = pt p
   \<and> pvx ((move w h ^^ n) p) = pvx p \<and> pvy ((move w h ^^ n) p) = pvy p
   \<and> pr ((move w h ^^ n) p) = pr p \<and> pt ((move w h ^^ n) p) = pt p
   \<and> map fixed_fields (particles (frame s)) = map fixed_fields (particles s)
   \<and> (rebuild_free evs s \<longrightarrow>
        map fixed_fields (particles (run evs s)) = map fixed_fields (particles s))
   \<and> (rebuilds e s \<longrightarrow>
        particles (step e s)
          = fst (make_particles (nat (PARTICLE_COUNT s)) (width (step e s)) (height (step e s))
                   (rnd s) (rnd_pos s)))"
proof -
  have one: "pvx (move w h p) = pvx p \<and> pvy (move w h p) = pvy p
      \<and> pr (move w h p) = pr p \<and> pt (move w h p) = pt p"
    by (simp add: move_fixed_fields)
  have many: "pvx ((move w h ^^ n) p) = pvx p \<and> pvy ((move w h ^^ n) p) = pvy p
      \<and> pr ((move w h ^^ n) p) = pr p \<and> pt ((move w h ^^ n) p) = pt p"
    using fixed_fields_moves[where w = w and h = h and n = n and p = p] by (simp add: fixed_fields_def)
  have rebuilt: "particles (step e s)
          = fst (make_particles (nat (PARTICLE_COUNT s)) (width (step e s)) (height (step e s))
                   (rnd s) (rnd_pos s))" if "rebuilds e s"
    using that by (cases e) (simp_all add: on_resize_eq buildParticles_eq resize_def Let_def)
  show ?thesis using one many fixed_fields_frame fixed_fields_run rebuilt by blast
qed

theorem move_changes_position_only_witness:
  "rebuild_free [AnimationFrame, Resize 100 (layout 320 568), VisibilityChange True, AnimationFrame]
      (start (layout 1024 768) False (\<lambda>i. 1 / 2))
   \<and> map fixed_fields (particles
        (run [AnimationFrame, Resize 100 (layout 320 568), VisibilityChange True, AnimationFrame]
           (start (layout 1024 768) False (\<lambda>i. 1 / 2))))
     = map fixed_fields (particles (start (layout 1024 768) False (\<lambda>i. 1 / 2)))
   \<and> rebuilds (Resize 1000 (layout 320 568)) (start (layout 1024 768) False (\<lambda>i. 1 / 2))
   \<and> length (particles (step (Resize 1000 (layout 320 568))
                           (start (layout 1024 768) False (\<lambda>i. 1 / 2)))) = 64"
proof -
  have free: "rebuild_free
      [AnimationFrame, Resize 100 (layout 320 568), VisibilityChange True, AnimationFrame]
      (start (layout 1024 768) False (\<lambda>i. 1 / 2))"
    by (simp add: throttle_last_step start_fields del: step.simps)
  have big: "rebuilds (Resize 1000 (layout 320 568)) (start (layout 1024 768) False (\<lambda>i. 1 / 2))"
    by (simp add: start_fields)
  show ?thesis
    using free big
      move_changes_position_only[of _ _ _ _
        "start (layout 1024 768) False (\<lambda>i. 1 / 2)"
        "[AnimationFrame, Resize 100 (layout 320 568), VisibilityChange True, AnimationFrame]"
        "Resize 1000 (layout 320 568)"]
    by (simp add: length_make_particles start_fields layout_def)
qed

subsection \<open>The throttled resize listener\<close>

lemma step_Resize_eq:
  "step (Resize now v) s =
     (if now - throttle_last s \<ge> 200
      then (buildParticles (resize (s\<lparr>win := v\<rparr>)))\<lparr>throttle_last := now\<rparr>
      else s\<lparr>win := v\<rparr>)"
  by (simp add: on_resize_eq)

lemma rebuild_times_after_last:
  assumes "sorted (resize_clock evs)" and "\<forall>t\<in>set (resize_clock evs). throttle_last s \<le> t"
  shows "\<forall>t\<in>set (rebuild_times evs s). t - throttle_last s \<ge> 200"
  using assms
proof (induction evs arbitrary: s)
  case Nil
  then show ?case by simp
next
  case (Cons e evs)
  show ?case
  proof (cases e)
    case (Resize now v)
    have srt: "sorted (resize_clock evs)" and le: "\<forall>t\<in>set (resize_clock evs). now \<le> t"
      and lst: "throttle_last s \<le> now" and lsts: "\<forall>t\<in>set (resize_clock evs). throttle_last s \<le> t"
      using Cons.prems Resize by simp_all
    show ?thesis
    proof (cases "now - throttle_last s \<ge> 200")
      case True
      then have tl: "throttle_last (step e s) = now"
        using Resize by (simp add: throttle_last_step del: step.simps)
      have "\<forall>t\<in>set (rebuild_times evs (step e s)). t - throttle_last (step e s) \<ge> 200"
        using Cons.IH[of "step e s"] srt le tl by simp
      then show ?thesis using True Resize tl lst by (auto simp del: step.simps)
    next
      case False
      then have tl: "throttle_last (step e s) = throttle_last s"
        using Resize by (simp add: throttle_last_step del: step.simps)
      have "\<forall>t\<in>set (rebuild_times evs (step e s)). t - throttle_last (step e s) \<ge> 200"
        using Cons.IH[of "step e s"] srt lsts tl by simp
      then show ?thesis using False Resize tl by (auto simp del: step.simps)
    qed
  next
    case (VisibilityChange b)
    then have tl: "throttle_last (step e s) = throttle_last s"
      by (simp add: throttle_last_step del: step.simps)
    have "\<forall>t\<in>set (rebuild_times evs (step e s)). t - throttle_last (step e s) \<ge> 200"
      using Cons.IH[of "step e s"] Cons.prems VisibilityChange tl by simp
    then show ?thesis using VisibilityChange tl by (simp del: step.simps)
  next
    case AnimationFrame
    then have tl: "throttle_last (step e s) = throttle_last s"
      by (simp add: throttle_last_step del: step.simps)
    have "\<forall>t\<in>set (rebuild_times evs (step e s)). t - throttle_last (step e s) \<ge> 200"
      using Cons.IH[of "step e s"] Cons.prems AnimationFrame tl by simp
    then show ?thesis using AnimationFrame tl by (simp del: step.simps)
  qed
qed

lemma rebuild_times_apart:
  assumes "sorted (resize_clock evs)" and "\<forall>t\<in>set (resize_clock evs). throttle_last s \<le> t"
  shows "sorted_wrt (\<lambda>a b. b - a \<ge> 200) (rebuild_times evs s)"
  using assms
proof (induction evs arbitrary: s)
  case Nil
  then show ?case by simp
next
  case (Cons e evs)
  show ?case
  proof (cases e)
    case (Resize now v)
    have srt: "sorted (resize_clock evs)" and le: "\<forall>t\<in>set (resize_clock evs). now \<le> t"
      and lsts: "\<forall>t\<in>set (resize_clock evs). throttle_last s \<le> t"
      using Cons.prems Resize by simp_all
    show ?thesis
    proof (cases "now - throttle_last s \<ge> 200")
      case True
      then have tl: "throttle_last (step e s) = now"
        using Resize by (simp add: throttle_last_step del: step.simps)
      have "sorted_wrt (\<lambda>a b. b - a \<ge> 200) (rebuild_times evs (step e s))"
        using Cons.IH[of "step e s"] srt le tl by simp
      moreover have "\<forall>t\<in>set (rebuild_times evs (step e s)). t - now \<ge> 200"
        using rebuild_times_after_last[of evs "step e s"] srt le tl by simp
      ultimately show ?thesis using True Resize by (simp del: step.simps)
    next
      case False
      then have tl: "throttle_last (step e s) = throttle_last s"
        using Resize by (simp add: throttle_last_step del: step.simps)
      have "sorted_wrt (\<lambda>a b. b - a \<ge> 200) (rebuild_times evs (step e s))"
        using Cons.IH[of "step e s"] srt lsts tl by simp
      then show ?thesis using False Resize by (simp del: step.simps)
    qed
  next
    case (VisibilityChange b)
    then have tl: "throttle_last (step e s) = throttle_last s"
      by (simp add: throttle_last_step del: step.simps)
    show ?thesis
      using Cons.IH[of "step e s"] Cons.prems VisibilityChange tl by (simp del: step.simps)
  next
    case AnimationFrame
    then have tl: "throttle_last (step e s) = throttle_last s"
      by (simp add: throttle_last_step del: step.simps)
    show ?thesis
      using Cons.IH[of "step e s"] Cons.prems AnimationFrame tl by (simp del: step.simps)
  qed
qed

text \<open>
  C5 (as amended). The resize listener is throttled on the leading edge. A
  resize event rebuilds at once when at least 200 ms have passed since the
  last rebuilding resize (since clock reading 0 for the first), and is dropped
  otherwise. Hence of two resize events less than 200 ms apart, the first
  coming at least 200 ms after the last rebuild, exactly the first rebuilds,
  with the layout of that moment, and the second only changes the host's
  layout. Along any trace whose clock does not run backwards, any two rebuilds
  are at least 200 ms apart.
\<close>

theorem resize_leading_edge_throttle:
  "step (Resize now v) s =
     (if now - throttle_last s \<ge> 200
      then (buildParticles (resize (s\<lparr>win := v\<rparr>)))\<lparr>throttle_last := now\<rparr>
      else s\<lparr>win := v\<rparr>)
   \<and> (t1 \<le> t2 \<and> t2 - t1 < 200 \<and> t1 - throttle_last s \<ge> 200 \<longrightarrow>
        run [Resize t1 v1, Resize t2 v2] s
          = (buildParticles (resize (s\<lparr>win := v1\<rparr>)))\<lparr>throttle_last := t1, win := v2\<rparr>
        \<and> rebuild_times [Resize t1 v1, Resize t2 v2] s = [t1])
   \<and> (sorted (resize_clock evs) \<and> (\<forall>t\<in>set (resize_clock evs). throttle_last s \<le> t) \<longrightarrow>
        sorted_wrt (\<lambda>a b. b - a \<ge> 200) (rebuild_times evs s))"
proof -
  have pair: "run [Resize t1 v1, Resize t2 v2] s
          = (buildParticles (resize (s\<lparr>win := v1\<rparr>)))\<lparr>throttle_last := t1, win := v2\<rparr>
        \<and> rebuild_times [Resize t1 v1, Resize t2 v2] s = [t1]"
    if "t1 \<le> t2" "t2 - t1 < 200" "t1 - throttle_last s \<ge> 200"
    using that by (simp add: run_def on_resize_eq buildParticles_eq resize_def Let_def)
  show ?thesis using step_Resize_eq pair rebuild_times_apart by blast
qed

theorem resize_leading_edge_throttle_witness:
  "(1000::int) \<le> 1100 \<and> (1100::int) - 1000 < 200
   \<and> 1000 - throttle_last (start (layout 800 600) False (\<lambda>i. 1 / 2)) \<ge> 200
   \<and> rebuild_times [Resize 1000 (layout 800 600), Resize 1100 (layout 1200 600)]
        (start (layout 800 600) False (\<lambda>i. 1 / 2)) = [1000]
   \<and> sorted (resize_clock [Resize 1000 (layout 800 600), AnimationFrame, Resize 1100 (layout 1200 600),
                            Resize 1250 (layout 1200 600)])
   \<and> resize_clock [Resize 1000 (layout 800 600), AnimationFrame,
                     Resize 1100 (layout 1200 600), Resize 1250 (layout 1200 600)]
       = [1000, 1100, 1250]
   \<and> throttle_last (start (layout 800 600) False (\<lambda>i. 1 / 2)) = 0
   \<and> sorted_wrt (\<lambda>a b. b - a \<ge> 200)
        (rebuild_times [Resize 1000 (layout 800 600), AnimationFrame, Resize 1100 (layout 1200 600),
                        Resize 1250 (layout 1200 600)]
           (start (layout 800 600) False (\<lambda>i. 1 / 2)))"
proof -
  let ?s = "start (layout 800 600) False (\<lambda>i. 1 / 2)"
  let ?evs = "[Resize 1000 (layout 800 600), AnimationFrame, Resize 1100 (layout 1200 600),
               Resize 1250 (layout 1200 600)]"
  have h0: "(1000::int) \<le> 1100 \<and> (1100::int) - 1000 < 200"
    by simp
  have h1: "1000 - throttle_last ?s \<ge> 200"
    by (simp add: start_fields)
  have h2: "sorted (resize_clock ?evs)"
    by simp
  have h3: "\<forall>t\<in>set (resize_clock ?evs). throttle_last ?s \<le> t"
    by (simp add: start_fields)
  have h4: "resize_clock ?evs = [1000, 1100, 1250]" "throttle_last ?s = 0"
    by (simp_all add: start_fields)
  from resize_leading_edge_throttle
         [of 1000 "layout 800 600" ?s 1000 1100 "layout 800 600" "layout 1200 600" ?evs]
       h0 h1 h2 h3 h4
  show ?thesis by blast
qed

text \<open>
  C5 as stated fails. Two resizes 100 ms apart, to widths 800 and 1200: the
  rebuild happens at the first (the leading edge), nothing happens after the
  second, and the closure is left with the width 800 of a layout that is no
  longer current. And of three resizes at 1000, 1100 and 1150 only the first
  rebuilds, so the pair at 1100 and 1150 sees no rebuild at all.
\<close>

theorem resize_throttle_not_trailing:
  "rebuild_times [Resize 1000 (layout 800 600), Resize 1100 (layout 1200 600)]
      (start (layout 800 600) False (\<lambda>i. 1 / 2)) = [1000]
   \<and> width (run [Resize 1000 (layout 800 600), Resize 1100 (layout 1200 600)]
              (start (layout 800 600) False (\<lambda>i. 1 / 2))) = 800
   \<and> real_of_int (offsetWidth (win (run [Resize 1000 (layout 800 600), Resize 1100 (layout 1200 600)]
              (start (layout 800 600) False (\<lambda>i. 1 / 2))))) = 1200
   \<and> rebuild_times [Resize 1000 (layout 800 600), Resize 1100 (layout 1200 600),
                     Resize 1150 (layout 1200 600)]
      (start (layout 800 600) False (\<lambda>i. 1 / 2)) = [1000]"
  by (simp add: run_def on_resize_eq start_fields buildParticles_eq resize_def Let_def layout_def)

subsection \<open>Visibility and the animation loop\<close>

lemma loop_fields_frame:
  "callbacks (frame s) = callbacks s @ [handle s + 1]"
  "handle (frame s) = handle s + 1"
  "animId (frame s) = handle s + 1"
  "hidden (frame s) = hidden s"
  "length (canvas_log (frame s)) > length (canvas_log s)"
  by (simp_all add: frame_eq)

lemma loop_fields_Resize:
  "callbacks (step (Resize now v) s) = callbacks s"
  "handle (step (Resize now v) s) = handle s"
  "animId (step (Resize now v) s) = animId s"
  "hidden (step (Resize now v) s) = hidden s"
  by (simp_all add: on_resize_eq buildParticles_eq resize_def Let_def)

lemma loop_fields_VisibilityChange:
  "callbacks (step (VisibilityChange b) s) =
     (if b then filter (\<lambda>c. c \<noteq> animId s) (callbacks s) else callbacks s @ [handle s + 1])"
  "handle (step (VisibilityChange b) s) = (if b then handle s else handle s + 1)"
  "animId (step (VisibilityChange b) s) = (if b then animId s else handle s + 1)"
  "hidden (step (VisibilityChange b) s) = b"
  by (simp_all add: on_visibilitychange_eq)

lemma hidden_frames: "hidden (fold (\<lambda>c. frame) cs s) = hidden s"
  by (induction cs arbitrary: s) (simp_all add: loop_fields_frame)

lemma hidden_step:
  "hidden (step e s) = (case e of VisibilityChange b \<Rightarrow> b | _ \<Rightarrow> hidden s)"
  by (cases e) (simp_all add: loop_fields_Resize loop_fields_VisibilityChange hidden_frames
      del: step.simps, simp add: hidden_frames)

lemma single_loop_step:
  assumes "single_loop s" and "\<forall>b. e = VisibilityChange b \<longrightarrow> b \<noteq> hidden s"
  shows "single_loop (step e s)"
proof (cases e)
  case (Resize now v)
  with assms(1) show ?thesis
    by (simp add: single_loop_def loop_fields_Resize del: step.simps)
next
  case (VisibilityChange b)
  with assms show ?thesis
    by (auto simp add: single_loop_def loop_fields_VisibilityChange simp del: step.simps)
next
  case AnimationFrame
  show ?thesis
  proof (cases "hidden s")
    case True
    with assms(1) AnimationFrame show ?thesis by (simp add: single_loop_def)
  next
    case False
    with assms(1) have "callbacks s = [animId s]" by (simp add: single_loop_def)
    with assms(1) False AnimationFrame show ?thesis
      by (simp add: single_loop_def loop_fields_frame)
  qed
qed

lemma single_loop_run:
  "single_loop s \<Longrightarrow> alternating (hidden s) evs \<Longrightarrow> single_loop (run evs s)"
  unfolding run_def
proof (induction evs arbitrary: s)
  case Nil
  then show ?case by simp
next
  case (Cons e evs)
  show ?case
  proof (cases e)
    case (Resize now v)
    with Cons.prems have "single_loop (step e s)" "alternating (hidden (step e s)) evs"
      using single_loop_step[of s e] by (simp_all add: hidden_step del: step.simps)
    then show ?thesis using Cons.IH by simp
  next
    case (VisibilityChange b)
    with Cons.prems have "single_loop (step e s)" "alternating (hidden (step e s)) evs"
      using single_loop_step[of s e] by (auto simp add: hidden_step simp del: step.simps)
    then show ?thesis using Cons.IH by simp
  next
    case AnimationFrame
    with Cons.prems have "single_loop (step e s)" "alternating (hidden (step e s)) evs"
      using single_loop_step[of s e] by (simp_all add: hidden_step del: step.simps)
    then show ?thesis using Cons.IH by simp
  qed
qed

text \<open>
  When the page is visible as the script starts and every visibility event is
  a change, there is one loop throughout: hiding the page cancels the only
  pending request, an animation frame delivered to the hidden page runs no
  callback and draws nothing, and showing the page again leaves exactly the
  one new request pending.
\<close>

lemma visible_start_single_loop:
  assumes "alternating False evs"
  shows "single_loop (run evs (start v False rs))"
    and "hidden (run evs (start v False rs)) \<Longrightarrow>
           callbacks (run evs (start v False rs)) = []
           \<and> canvas_log (step AnimationFrame (run evs (start v False rs)))
               = canvas_log (run evs (start v False rs))"
    and "hidden (run evs (start v False rs)) \<Longrightarrow>
           callbacks (step (VisibilityChange False) (run evs (start v False rs)))
             = [handle (run evs (start v False rs)) + 1]"
proof -
  have "single_loop (start v False rs)"
    by (simp add: single_loop_def start_fields)
  then show loop: "single_loop (run evs (start v False rs))"
    using single_loop_run[of "start v False rs" evs] assms by (simp add: start_fields)
  show "callbacks (run evs (start v False rs)) = []
           \<and> canvas_log (step AnimationFrame (run evs (start v False rs)))
               = canvas_log (run evs (start v False rs))"
    if "hidden (run evs (start v False rs))"
    using loop that by (simp add: single_loop_def)
  show "callbacks (step (VisibilityChange False) (run evs (start v False rs)))
             = [handle (run evs (start v False rs)) + 1]"
    if "hidden (run evs (start v False rs))"
    using loop that by (simp add: single_loop_def loop_fields_VisibilityChange del: step.simps)
qed

text \<open>
  C6 fails when the page is hidden as the script starts (a tab opened in the
  background). \<^verbatim>\<open>initCanvas\<close> calls \<^verbatim>\<open>frame()\<close> regardless, which leaves
  request 1 pending; the first visibility event adds request 2 without
  cancelling it; the next animation frame runs both callbacks, which request 3
  and 4 and leave \<^verbatim>\<open>animId = 4\<close>. Hiding the page then cancels 4 only:
  request 3 stays pending, and an animation frame delivered now draws again.
\<close>

theorem hidden_start_leaves_request_pending:
  "hidden (run [VisibilityChange False, AnimationFrame, VisibilityChange True]
             (start (layout 1024 768) True (\<lambda>i. 1 / 2)))
   \<and> callbacks (run [VisibilityChange False, AnimationFrame]
                  (start (layout 1024 768) True (\<lambda>i. 1 / 2))) = [3, 4]
   \<and> animId (run [VisibilityChange False, AnimationFrame]
                  (start (layout 1024 768) True (\<lambda>i. 1 / 2))) = 4
   \<and> callbacks (run [VisibilityChange False, AnimationFrame, VisibilityChange True]
                  (start (layout 1024 768) True (\<lambda>i. 1 / 2))) = [3]
   \<and> length (canvas_log (run [VisibilityChange False, AnimationFrame, VisibilityChange True]
                            (start (layout 1024 768) True (\<lambda>i. 1 / 2))))
     < length (canvas_log (run [VisibilityChange False, AnimationFrame, VisibilityChange True,
                                AnimationFrame]
                            (start (layout 1024 768) True (\<lambda>i. 1 / 2))))"
proof -
  let ?s0 = "start (layout 1024 768) True (\<lambda>i. 1 / 2)"
  let ?s1 = "step (VisibilityChange False) ?s0"
  let ?s2 = "step AnimationFrame ?s1"
  let ?s3 = "step (VisibilityChange True) ?s2"
  have s1: "callbacks ?s1 = [1, 2]" "handle ?s1 = 2"
    by (simp_all add: loop_fields_VisibilityChange start_fields del: step.simps)
  have s2eq: "?s2 = frame (frame (?s1\<lparr>callbacks := []\<rparr>))"
    using s1(1) by simp
  have s2: "callbacks ?s2 = [3, 4]" "handle ?s2 = 4" "animId ?s2 = 4"
    unfolding s2eq using s1(2) by (simp_all add: loop_fields_frame)
  have s3: "callbacks ?s3 = [3]" "hidden ?s3"
    using s2 by (simp_all add: loop_fields_VisibilityChange del: step.simps)
  have s4: "step AnimationFrame ?s3 = frame (?s3\<lparr>callbacks := []\<rparr>)"
    using s3(1) by simp
  have "length (canvas_log ?s3) < length (canvas_log (step AnimationFrame ?s3))"
    unfolding s4 using loop_fields_frame(5)[of "?s3\<lparr>callbacks := []\<rparr>"] by simp
  then show ?thesis using s2 s3 by (simp add: run_def del: step.simps)
qed

subsection \<open>The deploy script\<close>

lemma missing_or_empty_unusable: "missing_or_empty d \<Longrightarrow> dist_unusable d"
  by (auto simp add: missing_or_empty_def dist_unusable_def ls_A_def command_subst_def)

lemma deploy_no_env:
  assumes "env_file w = None"
  shows "deploy w = \<lparr>exit_status = 1, printed = env_missing_msg (root_dir w), actions = []\<rparr>"
  using assms by (simp add: deploy_def)

lemma deploy_unset:
  assumes "env_file w = Some a"
    and "\<exists>n\<in>set required_vars. unset_or_null (source_env (environ w) a n)"
  shows "exit_status (deploy w) = 1 \<and> actions (deploy w) = []
         \<and> (\<exists>n\<in>set required_vars. unset_or_null (source_env (environ w) a n)
                \<and> printed (deploy w) = [unset_msg n])"
  using assms by (auto simp add: deploy_def Let_def required_vars_def)

lemma deploy_dist_unusable:
  assumes "env_file w = Some a"
    and "\<forall>n\<in>set required_vars. \<not> unset_or_null (source_env (environ w) a n)"
    and "''--skip-build'' \<in> set (args w) \<or> build_status w = 0"
    and "dist_unusable (dist_inspected w)"
  shows "exit_status (deploy w) = 1
         \<and> last (printed (deploy w)) = dist_empty_msg
         \<and> actions (deploy w) = (if ''--skip-build'' \<in> set (args w) then [] else [Build])"
proof (cases "''--skip-build'' \<in> set (args w)")
  case True
  with assms(4) have "dist_unusable (dist_before w)"
    by (simp add: dist_inspected_def)
  with True assms(1,2) show ?thesis
    by (simp add: deploy_def Let_def required_vars_def)
next
  case False
  with assms(3,4) have "build_status w = 0" "dist_unusable (dist_after_build w)"
    by (simp_all add: dist_inspected_def)
  with False assms(1,2) show ?thesis
    by (simp add: deploy_def Let_def required_vars_def)
qed

lemma deploy_sound_world:
  "exit_status (deploy sound_world) = 0
   \<and> actions (deploy sound_world)
       = [Build, SyncHtml ''/srv/portfolio/dist'' ''my-portfolio'' ''us-east-1'',
          SyncAssets ''/srv/portfolio/dist'' ''my-portfolio'' ''us-east-1'',
          Invalidate ''E2EXAMPLE'']"
  by (simp add: deploy_def sound_world_def source_env_def unset_or_null_def expand_def Let_def
      dist_unusable_def ls_A_def command_subst_def)

text \<open>
  C9. A run of the deploy script ends with a non-zero status, after writing
  the message that names the fault, and without running either upload, when
  \<^verbatim>\<open>.env\<close> is missing; when one of the three required variables is unset
  (or empty) after sourcing it; and when the \<^verbatim>\<open>dist\<close> directory the script
  inspects after its build step is missing or empty.
\<close>

theorem deploy_aborts_before_upload:
  "(env_file w = None \<longrightarrow>
      exit_status (deploy w) \<noteq> 0
      \<and> printed (deploy w) = env_missing_msg (root_dir w)
      \<and> \<not> (\<exists>x\<in>set (actions (deploy w)). is_upload x))
   \<and> (env_file w = Some a
       \<and> (\<exists>n\<in>set required_vars. unset_or_null (source_env (environ w) a n)) \<longrightarrow>
      exit_status (deploy w) \<noteq> 0
      \<and> (\<exists>n\<in>set required_vars. unset_or_null (source_env (environ w) a n)
             \<and> printed (deploy w) = [unset_msg n])
      \<and> \<not> (\<exists>x\<in>set (actions (deploy w)). is_upload x))
   \<and> (env_file w = Some a
       \<and> (\<forall>n\<in>set required_vars. \<not> unset_or_null (source_env (environ w) a n))
       \<and> (''--skip-build'' \<in> set (args w) \<or> build_status w = 0)
       \<and> missing_or_empty (dist_inspected w) \<longrightarrow>
      exit_status (deploy w) \<noteq> 0
      \<and> last (printed (deploy w)) = dist_empty_msg
      \<and> \<not> (\<exists>x\<in>set (actions (deploy w)). is_upload x))"
proof -
  have env: "exit_status (deploy w) \<noteq> 0
      \<and> printed (deploy w) = env_missing_msg (root_dir w)
      \<and> \<not> (\<exists>x\<in>set (actions (deploy w)). is_upload x)" if "env_file w = None"
    using deploy_no_env[OF that] by simp
  have var: "exit_status (deploy w) \<noteq> 0
      \<and> (\<exists>n\<in>set required_vars. unset_or_null (source_env (environ w) a n)
             \<and> printed (deploy w) = [unset_msg n])
      \<and> \<not> (\<exists>x\<in>set (actions (deploy w)). is_upload x)"
    if "env_file w = Some a" "\<exists>n\<in>set required_vars. unset_or_null (source_env (environ w) a n)"
    using deploy_unset[OF that] by simp
  have dist: "exit_status (deploy w) \<noteq> 0
      \<and> last (printed (deploy w)) = dist_empty_msg
      \<and> \<not> (\<exists>x\<in>set (actions (deploy w)). is_upload x)"
    if "env_file w = Some a"
      "\<forall>n\<in>set required_vars. \<not> unset_or_null (source_env (environ w) a n)"
      "''--skip-build'' \<in> set (args w) \<or> build_status w = 0"
      "missing_or_empty (dist_inspected w)"
    using deploy_dist_unusable[OF that(1,2,3) missing_or_empty_unusable[OF that(4)]] by simp
  show ?thesis using env var dist by blast
qed

theorem deploy_aborts_before_upload_witness:
  "env_file (sound_world\<lparr>env_file := None\<rparr>) = None
   \<and> exit_status (deploy (sound_world\<lparr>env_file := None\<rparr>)) \<noteq> 0
   \<and> printed (deploy (sound_world\<lparr>env_file := None\<rparr>)) = env_missing_msg ''/srv/portfolio''
   \<and> (\<exists>n\<in>set required_vars.
         unset_or_null (source_env [(''HOME'', ''/root'')]
                          [(''S3_BUCKET'', ''my-portfolio''), (''AWS_REGION'', [])] n))
   \<and> exit_status (deploy (sound_world\<lparr>env_file :=
         Some [(''S3_BUCKET'', ''my-portfolio''), (''AWS_REGION'', [])]\<rparr>)) \<noteq> 0
   \<and> \<not> (\<exists>x\<in>set (actions (deploy (sound_world\<lparr>env_file :=
         Some [(''S3_BUCKET'', ''my-portfolio''), (''AWS_REGION'', [])]\<rparr>))). is_upload x)
   \<and> missing_or_empty (dist_inspected (sound_world\<lparr>args := [''--skip-build'']\<rparr>))
   \<and> exit_status (deploy (sound_world\<lparr>args := [''--skip-build'']\<rparr>)) \<noteq> 0
   \<and> last (printed (deploy (sound_world\<lparr>args := [''--skip-build'']\<rparr>))) = dist_empty_msg
   \<and> \<not> (\<exists>x\<in>set (actions (deploy (sound_world\<lparr>args := [''--skip-build'']\<rparr>))). is_upload x)"
proof -
  let ?w1 = "sound_world\<lparr>env_file := None\<rparr>"
  let ?a2 = "[(''S3_BUCKET'', ''my-portfolio''), (''AWS_REGION'', [])]"
  let ?w2 = "sound_world\<lparr>env_file := Some ?a2\<rparr>"
  let ?w3 = "sound_world\<lparr>args := [''--skip-build'']\<rparr>"
  let ?a3 = "[(''S3_BUCKET'', ''my-portfolio''), (''AWS_REGION'', ''us-east-1''),
              (''CLOUDFRONT_DISTRIBUTION_ID'', ''E2EXAMPLE'')]"
  have h1: "env_file ?w1 = None" "root_dir ?w1 = ''/srv/portfolio''"
    by (simp_all add: sound_world_def)
  have h2: "env_file ?w2 = Some ?a2" "environ ?w2 = [(''HOME'', ''/root'')]"
    "\<exists>n\<in>set required_vars. unset_or_null (source_env [(''HOME'', ''/root'')] ?a2 n)"
    by (simp_all add: sound_world_def required_vars_def source_env_def unset_or_null_def)
  have h3: "env_file ?w3 = Some ?a3"
    "\<forall>n\<in>set required_vars. \<not> unset_or_null (source_env (environ ?w3) ?a3 n)"
    "''--skip-build'' \<in> set (args ?w3)"
    "missing_or_empty (dist_inspected ?w3)"
    by (simp_all add: sound_world_def required_vars_def source_env_def unset_or_null_def
        missing_or_empty_def dist_inspected_def)
  from deploy_aborts_before_upload[of ?w1] h1
  have c1: "exit_status (deploy ?w1) \<noteq> 0 \<and> printed (deploy ?w1) = env_missing_msg ''/srv/portfolio''"
    by simp
  from deploy_aborts_before_upload[of ?w2 ?a2] h2
  have c2: "exit_status (deploy ?w2) \<noteq> 0 \<and> \<not> (\<exists>x\<in>set (actions (deploy ?w2)). is_upload x)"
    by simp
  from deploy_aborts_before_upload[of ?w3 ?a3] h3
  have c3: "exit_status (deploy ?w3) \<noteq> 0 \<and> last (printed (deploy ?w3)) = dist_empty_msg
            \<and> \<not> (\<exists>x\<in>set (actions (deploy ?w3)). is_upload x)"
    by blast
  show ?thesis using h1(1) h2(3) h3(4) c1 c2 c3 by blast
qed

end
